theory Spec2Isabelle
  imports Complex_Main "HOL-Library.Multiset"
begin

section \<open>Numeric model\<close>

text \<open>
  The scan ground filter computes on \<^verbatim>\<open>float\<close> and \<^verbatim>\<open>double\<close> values. They are
  modelled as real numbers: every arithmetic operation is exact, there is no NaN and no
  infinity. Where the source divides by a value that may be zero or converts a value that
  may be out of range to \<^verbatim>\<open>size_t\<close>, the model says so with an explicit result.
\<close>

definition hypot :: "real \<Rightarrow> real \<Rightarrow> real" where
  "hypot a b = sqrt (a * a + b * b)"

text \<open>\<^verbatim>\<open>std::atan2(v, u)\<close>: the angle of the vector \<open>(u, v)\<close>, in \<open>(-pi, pi]\<close>.\<close>

definition atan2 :: "real \<Rightarrow> real \<Rightarrow> real" where
  "atan2 v u =
     (if 0 < u then arctan (v / u)
      else if u < 0 then (if 0 \<le> v then arctan (v / u) + pi else arctan (v / u) - pi)
      else if 0 < v then pi / 2
      else if v < 0 then - (pi / 2)
      else 0)"

text \<open>\<^verbatim>\<open>std::fmod(a, b)\<close>: \<open>a\<close> minus \<open>b\<close> times the quotient truncated towards zero.\<close>

definition trunc :: "real \<Rightarrow> int" where
  "trunc v = (if 0 \<le> v then \<lfloor>v\<rfloor> else \<lceil>v\<rceil>)"

definition fmod :: "real \<Rightarrow> real \<Rightarrow> real" where
  "fmod a b = a - b * of_int (trunc (a / b))"

definition copysign :: "real \<Rightarrow> real \<Rightarrow> real" where
  "copysign m s = (if s < 0 then - \<bar>m\<bar> else \<bar>m\<bar>)"

text \<open>
  Modelled from the spec: the helpers \<^verbatim>\<open>deg2rad\<close>, \<^verbatim>\<open>normalizeRadian\<close>,
  \<^verbatim>\<open>normalizeDegree\<close> and \<^verbatim>\<open>calcDistance3d\<close> of \<^verbatim>\<open>tier4_autoware_utils\<close>, which
  the filter calls and whose files are missing from the sources. The spec asks for an
  azimuth "normalized to [0, 2pi)" and for the "3D Euclidean distance". An angle is
  normalised to its representative in \<open>[min, min + period)\<close>: the remainder of the
  division by the period, moved by one period when it falls outside;
  \<open>normalizeDegree\<close> does so with period 360.
\<close>

definition deg2rad :: "real \<Rightarrow> real" where
  "deg2rad deg = deg * pi / 180"

definition normalizeRadian :: "real \<Rightarrow> real \<Rightarrow> real" where
  "normalizeRadian rad min_rad =
     (let max_rad = min_rad + 2 * pi;
          v = fmod rad (2 * pi)
      in if min_rad \<le> v \<and> v < max_rad then v else v - copysign (2 * pi) v)"

definition normalizeDegree :: "real \<Rightarrow> real \<Rightarrow> real" where
  "normalizeDegree deg min_deg =
     (let max_deg = min_deg + 360;
          v = fmod deg 360
      in if min_deg \<le> v \<and> v < max_deg then v else v - copysign 360 v)"

section \<open>Data model\<close>

record PointXYZ =
  pt_x :: real
  pt_y :: real
  pt_z :: real

definition calcDistance3d :: "PointXYZ \<Rightarrow> PointXYZ \<Rightarrow> real" where
  "calcDistance3d a b =
     sqrt ((pt_x a - pt_x b) * (pt_x a - pt_x b)
         + (pt_y a - pt_y b) * (pt_y a - pt_y b)
         + (pt_z a - pt_z b) * (pt_z a - pt_z b))"

datatype PointLabel = INIT | GROUND | NON_GROUND | POINT_FOLLOW

text \<open>
  \<^verbatim>\<open>PointRef\<close>: \<open>orig_point\<close> is a pointer into the input cloud in the source; the cloud
  is not written while a frame is processed, so the model keeps the point it points to.
\<close>

record PointRef =
  radius :: real
  theta :: real
  radial_div :: nat
  point_state :: PointLabel
  orig_index :: nat
  orig_point :: PointXYZ

text \<open>
  Modelled from the spec: \<^verbatim>\<open>PointsCentroid\<close>, the cluster accumulator, which is declared
  in the filter's header, missing from the sources. The spec gives it a "running count,
  summed radius, summed height", "average height, average radius, average slope
  (atan2(avg_height, avg_radius))", and "reset clears all sums". The averages of an empty
  accumulator are 0.
\<close>

record PointsCentroid =
  radius_sum :: real
  height_sum :: real
  point_num :: nat

definition initialize :: PointsCentroid where
  "initialize = \<lparr>radius_sum = 0, height_sum = 0, point_num = 0\<rparr>"

definition addPoint :: "PointsCentroid \<Rightarrow> real \<Rightarrow> real \<Rightarrow> PointsCentroid" where
  "addPoint c r h =
     \<lparr>radius_sum = radius_sum c + r, height_sum = height_sum c + h,
      point_num = Suc (point_num c)\<rparr>"

definition getAverageRadius :: "PointsCentroid \<Rightarrow> real" where
  "getAverageRadius c =
     (if point_num c = 0 then 0 else radius_sum c / real (point_num c))"

definition getAverageHeight :: "PointsCentroid \<Rightarrow> real" where
  "getAverageHeight c =
     (if point_num c = 0 then 0 else height_sum c / real (point_num c))"

definition getAverageSlope :: "PointsCentroid \<Rightarrow> real" where
  "getAverageSlope c = atan2 (getAverageHeight c) (getAverageRadius c)"

text \<open>
  The member variables of \<^verbatim>\<open>ScanGroundFilterComponent\<close> that the algorithm reads.
  \<open>radial_dividers_num\<close> is a \<^verbatim>\<open>size_t\<close> assigned from a \<^verbatim>\<open>double\<close>; \<open>None\<close> stands
  for the value left by a conversion that C++ does not define.
\<close>

record Component =
  global_slope_max_angle_rad :: real
  local_slope_max_angle_rad :: real
  radial_divider_angle_rad :: real
  split_points_distance_tolerance :: real
  split_height_distance :: real
  use_virtual_ground_point :: bool
  radial_dividers_num :: "nat option"
  wheel_base_m :: real

datatype error = InvalidParameterType | UndefinedConversion | IndexOutOfRange

section \<open>Construction and parameter updates\<close>

definition to_size_t :: "int \<Rightarrow> nat option" where
  "to_size_t k = (if 0 \<le> k \<and> k < 2 ^ 64 then Some (nat k) else None)"

text \<open>
  \<^verbatim>\<open>radial_dividers_num_ = std::ceil(2.0 * M_PI / radial_divider_angle_rad_)\<close>. A zero
  divisor gives an infinite quotient, which no \<^verbatim>\<open>size_t\<close> holds.
\<close>

definition calc_radial_dividers_num :: "real \<Rightarrow> nat option" where
  "calc_radial_dividers_num res =
     (if res = 0 then None else to_size_t \<lceil>2 * pi / res\<rceil>)"

text \<open>
  The constructor: each \<^verbatim>\<open>declare_parameter\<close> yields the value the node was started
  with (the default when there is no override); the wheel base comes from the vehicle
  information.
\<close>

definition ScanGroundFilterComponent ::
  "real \<Rightarrow> real \<Rightarrow> real \<Rightarrow> real \<Rightarrow> real \<Rightarrow> bool \<Rightarrow> real \<Rightarrow> Component" where
  "ScanGroundFilterComponent global_deg local_deg divider_deg tolerance height virt wheel_base =
     \<lparr>global_slope_max_angle_rad = deg2rad global_deg,
      local_slope_max_angle_rad = deg2rad local_deg,
      radial_divider_angle_rad = deg2rad divider_deg,
      split_points_distance_tolerance = tolerance,
      split_height_distance = height,
      use_virtual_ground_point = virt,
      radial_dividers_num = calc_radial_dividers_num (deg2rad divider_deg),
      wheel_base_m = wheel_base\<rparr>"

datatype ParameterValue = PDouble real | PBool bool

type_synonym Parameter = "string \<times> ParameterValue"

text \<open>
  Modelled from the spec: \<^verbatim>\<open>get_param\<close> of \<^verbatim>\<open>pointcloud_preprocessor\<close>, missing from
  the sources. The spec leaves the transport of parameter updates out of scope; the model
  takes the first parameter of the given name, if any, and reading it at another type
  than its own throws. A parameter is a name with a value.
\<close>

definition get_param_double :: "Parameter list \<Rightarrow> string \<Rightarrow> error + real option" where
  "get_param_double p name =
     (case find (\<lambda>q. fst q = name) p of
        None \<Rightarrow> Inr None
      | Some q \<Rightarrow> (case snd q of PDouble v \<Rightarrow> Inr (Some v) | PBool b \<Rightarrow> Inl InvalidParameterType))"

definition get_param_bool :: "Parameter list \<Rightarrow> string \<Rightarrow> error + bool option" where
  "get_param_bool p name =
     (case find (\<lambda>q. fst q = name) p of
        None \<Rightarrow> Inr None
      | Some q \<Rightarrow> (case snd q of PBool b \<Rightarrow> Inr (Some b) | PDouble v \<Rightarrow> Inl InvalidParameterType))"

record SetParametersResult =
  successful :: bool
  reason :: string

text \<open>
  \<^verbatim>\<open>onParameter\<close>. The current value the source reads for each angle before it looks
  the parameter up is overwritten or unused, and is left out.
\<close>

definition onParameter ::
  "Component \<Rightarrow> Parameter list \<Rightarrow> error + Component \<times> SetParametersResult" where
  "onParameter c p =
     (case get_param_double p ''global_slope_max_angle_deg'' of
        Inl e \<Rightarrow> Inl e
      | Inr g \<Rightarrow>
     (let c1 = (case g of None \<Rightarrow> c
                | Some d \<Rightarrow> c\<lparr>global_slope_max_angle_rad := deg2rad d\<rparr>) in
     (case get_param_double p ''local_slope_max_angle_deg'' of
        Inl e \<Rightarrow> Inl e
      | Inr l \<Rightarrow>
     (let c2 = (case l of None \<Rightarrow> c1
                | Some d \<Rightarrow> c1\<lparr>local_slope_max_angle_rad := deg2rad d\<rparr>) in
     (case get_param_double p ''radial_divider_angle_deg'' of
        Inl e \<Rightarrow> Inl e
      | Inr r \<Rightarrow>
     (let c3 = (case r of None \<Rightarrow> c2
                | Some d \<Rightarrow> c2\<lparr>radial_divider_angle_rad := deg2rad d,
                               radial_dividers_num := calc_radial_dividers_num (deg2rad d)\<rparr>) in
     (case get_param_double p ''split_points_distance_tolerance'' of
        Inl e \<Rightarrow> Inl e
      | Inr t \<Rightarrow>
     (let c4 = (case t of None \<Rightarrow> c3
                | Some v \<Rightarrow> c3\<lparr>split_points_distance_tolerance := v\<rparr>) in
     (case get_param_double p ''split_height_distance'' of
        Inl e \<Rightarrow> Inl e
      | Inr h \<Rightarrow>
     (let c5 = (case h of None \<Rightarrow> c4
                | Some v \<Rightarrow> c4\<lparr>split_height_distance := v\<rparr>) in
     (case get_param_bool p ''use_virtual_ground_point'' of
        Inl e \<Rightarrow> Inl e
      | Inr u \<Rightarrow>
     (let c6 = (case u of None \<Rightarrow> c5
                | Some b \<Rightarrow> c5\<lparr>use_virtual_ground_point := b\<rparr>) in
      Inr (c6, \<lparr>successful = True, reason = ''success''\<rparr>)))))))))))))"

section \<open>The radial binner\<close>

text \<open>
  The body of the first loop of \<^verbatim>\<open>convertPointcloud\<close>: the derived fields of the
  point at position \<open>i\<close> of the input cloud.
\<close>

definition make_point_ref :: "Component \<Rightarrow> nat \<Rightarrow> PointXYZ \<Rightarrow> PointRef" where
  "make_point_ref c i pt =
     (let th = normalizeRadian (atan2 (pt_x pt) (pt_y pt)) 0 in
      \<lparr>radius = hypot (pt_x pt) (pt_y pt),
       theta = th,
       radial_div = nat \<lfloor>normalizeDegree (th / radial_divider_angle_rad c) 0\<rfloor>,
       point_state = INIT,
       orig_index = i,
       orig_point = pt\<rparr>)"

text \<open>
  The first loop: each point is appended to the sector its \<open>radial_div\<close> names. The
  source indexes the vector of sectors unchecked; the model reports an index outside
  of it, and a zero divider angle, whose quotient is no index at all.
\<close>

fun bin_points ::
  "Component \<Rightarrow> nat \<Rightarrow> PointXYZ list \<Rightarrow> PointRef list list \<Rightarrow> error + PointRef list list" where
  "bin_points c i [] out = Inr out"
| "bin_points c i (pt # pts) out =
     (if radial_divider_angle_rad c = 0 then Inl UndefinedConversion
      else let p = make_point_ref c i pt in
        if radial_div p < length out
        then bin_points c (Suc i) pts (out[radial_div p := out ! radial_div p @ [p]])
        else Inl IndexOutOfRange)"

text \<open>
  The second loop sorts each sector with \<^verbatim>\<open>std::sort\<close> and the comparison
  \<^verbatim>\<open>a.radius < b.radius\<close>. \<^verbatim>\<open>std::sort\<close> promises a rearrangement of the range in
  which no element is less than an earlier one, and nothing on the order of elements
  that compare equal. \<open>std_sort lt xs ys\<close> says that \<open>ys\<close> is such a result for the
  range \<open>xs\<close>.
\<close>

definition std_sort :: "('a \<Rightarrow> 'a \<Rightarrow> bool) \<Rightarrow> 'a list \<Rightarrow> 'a list \<Rightarrow> bool" where
  "std_sort lt xs ys = (mset ys = mset xs \<and> sorted_wrt (\<lambda>a b. \<not> lt b a) ys)"

definition radius_less :: "PointRef \<Rightarrow> PointRef \<Rightarrow> bool" where
  "radius_less a b = (radius a < radius b)"

text \<open>
  \<open>convertPointcloud c cloud out\<close>: \<open>out\<close> is a value that \<^verbatim>\<open>convertPointcloud\<close> may
  leave in \<^verbatim>\<open>out_radial_ordered_points\<close> for the input \<open>cloud\<close>.
\<close>

definition convertPointcloud :: "Component \<Rightarrow> PointXYZ list \<Rightarrow> PointRef list list \<Rightarrow> bool" where
  "convertPointcloud c cloud out =
     (case radial_dividers_num c of
        None \<Rightarrow> False
      | Some n \<Rightarrow>
          (case bin_points c 0 cloud (replicate n []) of
             Inl e \<Rightarrow> False
           | Inr binned \<Rightarrow> list_all2 (std_sort radius_less) binned out))"

section \<open>The sector sweep classifier\<close>

text \<open>The variables declared at the head of the loop over the sectors.\<close>

record SweepState =
  prev_gnd_radius :: real
  prev_gnd_slope :: real
  points_distance :: real
  ground_cluster :: PointsCentroid
  non_ground_cluster :: PointsCentroid
  local_slope :: real
  prev_point_label :: PointLabel
  prev_gnd_point :: PointXYZ

definition init_ground_point :: PointXYZ where
  "init_ground_point = \<lparr>pt_x = 0, pt_y = 0, pt_z = 0\<rparr>"

definition calcVirtualGroundOrigin :: "Component \<Rightarrow> PointXYZ" where
  "calcVirtualGroundOrigin c = \<lparr>pt_x = wheel_base_m c, pt_y = 0, pt_z = 0\<rparr>"

definition sector_start :: SweepState where
  "sector_start =
     \<lparr>prev_gnd_radius = 0, prev_gnd_slope = 0, points_distance = 0,
      ground_cluster = initialize, non_ground_cluster = initialize,
      local_slope = 0, prev_point_label = INIT, prev_gnd_point = init_ground_point\<rparr>"

text \<open>
  The head of the loop body: \<open>p_prev = None\<close> is \<^verbatim>\<open>j == 0\<close>, and otherwise \<open>p_prev\<close>
  is the element before \<open>p\<close> in the sector.
\<close>

definition measure_distance ::
  "Component \<Rightarrow> SweepState \<Rightarrow> PointRef option \<Rightarrow> PointRef \<Rightarrow> SweepState" where
  "measure_distance c st p_prev p =
     (case p_prev of
        None \<Rightarrow>
          (let is_front_side = (pt_x (orig_point p) > pt_x (calcVirtualGroundOrigin c));
               g = (if use_virtual_ground_point c \<and> is_front_side
                    then calcVirtualGroundOrigin c else init_ground_point)
           in st\<lparr>prev_gnd_point := g,
                 prev_gnd_radius := hypot (pt_x g) (pt_y g),
                 prev_gnd_slope := 0,
                 ground_cluster := initialize,
                 non_ground_cluster := initialize,
                 points_distance := calcDistance3d (orig_point p) g\<rparr>)
      | Some q \<Rightarrow> st\<lparr>points_distance := calcDistance3d (orig_point p) (orig_point q)\<rparr>)"

definition is_point_close_to_prev :: "Component \<Rightarrow> SweepState \<Rightarrow> PointRef \<Rightarrow> bool" where
  "is_point_close_to_prev c st p =
     (points_distance st
        < radius p * radial_divider_angle_rad c + split_points_distance_tolerance c)"

definition global_slope :: "PointRef \<Rightarrow> real" where
  "global_slope p = atan2 (pt_z (orig_point p)) (radius p)"

text \<open>
  The four-way decision and the slope test that follows it: the label
  \<^verbatim>\<open>p->point_state\<close> holds when the reset of the accumulators is reached, and the
  value of \<^verbatim>\<open>local_slope\<close> then.
\<close>

definition decide_label :: "Component \<Rightarrow> SweepState \<Rightarrow> PointRef \<Rightarrow> PointLabel \<times> real" where
  "decide_label c st p =
     (let radius_distance_from_gnd = radius p - prev_gnd_radius st;
          height_from_gnd = pt_z (orig_point p) - pt_z (prev_gnd_point st);
          height_from_obj = pt_z (orig_point p) - getAverageHeight (non_ground_cluster st);
          close = is_point_close_to_prev c st p;
          (state1, calculate_slope) =
            (if global_slope p > global_slope_max_angle_rad c then (NON_GROUND, False)
             else if prev_point_label st = NON_GROUND
                     \<and> \<bar>height_from_obj\<bar> \<ge> split_height_distance c
               then (point_state p, True)
             else if close \<and> \<bar>height_from_gnd\<bar> < split_height_distance c
               then (POINT_FOLLOW, False)
             else (point_state p, True));
          height_from_gnd2 =
            (if close then pt_z (orig_point p) - getAverageHeight (ground_cluster st)
             else height_from_gnd);
          radius_distance_from_gnd2 =
            (if close then radius p - getAverageRadius (ground_cluster st)
             else radius_distance_from_gnd)
      in if calculate_slope
         then (let ls = atan2 height_from_gnd2 radius_distance_from_gnd2
               in (if ls - prev_gnd_slope st > local_slope_max_angle_rad c
                   then NON_GROUND else GROUND, ls))
         else (state1, local_slope st))"

text \<open>
  The resolution of the label against the label of the point before, with the index
  pushed to \<^verbatim>\<open>out_no_ground_indices\<close> (a vector of \<^verbatim>\<open>int\<close> in the source; the
  model keeps the position in the cloud as it is).
\<close>

definition resolve_label ::
  "PointLabel \<Rightarrow> PointLabel \<Rightarrow> nat \<Rightarrow> nat list \<Rightarrow> PointLabel \<times> nat list" where
  "resolve_label prev lbl idx out =
     (if lbl = NON_GROUND then (lbl, out @ [idx])
      else if prev = NON_GROUND \<and> lbl = POINT_FOLLOW then (NON_GROUND, out @ [idx])
      else if prev = GROUND \<and> lbl = POINT_FOLLOW then (GROUND, out)
      else (lbl, out))"

text \<open>The tail of the loop body: the ground and the non-ground state.\<close>

definition update_state :: "SweepState \<Rightarrow> PointLabel \<Rightarrow> PointRef \<Rightarrow> SweepState" where
  "update_state st lbl p =
     (let st1 = st\<lparr>prev_point_label := lbl\<rparr>;
          st2 = (if lbl = GROUND
                 then (let gc = addPoint (ground_cluster st1) (radius p) (pt_z (orig_point p))
                       in st1\<lparr>prev_gnd_radius := radius p,
                              prev_gnd_point := orig_point p,
                              ground_cluster := gc,
                              prev_gnd_slope := getAverageSlope gc\<rparr>)
                 else st1)
      in if lbl = NON_GROUND
         then st2\<lparr>non_ground_cluster :=
                    addPoint (non_ground_cluster st2) (radius p) (pt_z (orig_point p))\<rparr>
         else st2)"

text \<open>One pass of the loop body over the point \<open>p\<close>.\<close>

definition classify_point ::
  "Component \<Rightarrow> SweepState \<Rightarrow> PointRef option \<Rightarrow> PointRef \<Rightarrow> nat list
     \<Rightarrow> SweepState \<times> PointRef \<times> nat list" where
  "classify_point c st p_prev p out =
     (let st1 = measure_distance c st p_prev p;
          (lbl, ls) = decide_label c st1 p;
          st2 = st1\<lparr>local_slope := ls\<rparr>;
          st3 = (if lbl = GROUND
                 then st2\<lparr>ground_cluster := initialize, non_ground_cluster := initialize\<rparr>
                 else st2);
          (final, out') = resolve_label (prev_point_label st3) lbl (orig_index p) out
      in (update_state st3 final p, p\<lparr>point_state := final\<rparr>, out'))"

text \<open>
  The loop over the points of one sector: the sweep state after the last point, the
  points with their labels, and the indices pushed so far.
\<close>

fun classify_sector ::
  "Component \<Rightarrow> SweepState \<Rightarrow> PointRef option \<Rightarrow> PointRef list \<Rightarrow> nat list
     \<Rightarrow> SweepState \<times> PointRef list \<times> nat list" where
  "classify_sector c st p_prev [] out = (st, [], out)"
| "classify_sector c st p_prev (p # ps) out =
     (case classify_point c st p_prev p out of
        (st', p', out') \<Rightarrow>
          (case classify_sector c st' (Some p') ps out' of
             (st'', ps', out'') \<Rightarrow> (st'', p' # ps', out'')))"

text \<open>The loop over the sectors; each sector starts from fresh variables.\<close>

fun classify_sectors ::
  "Component \<Rightarrow> PointRef list list \<Rightarrow> nat list \<Rightarrow> PointRef list list \<times> nat list" where
  "classify_sectors c [] out = ([], out)"
| "classify_sectors c (s # ss) out =
     (case classify_sector c sector_start None s out of
        (st, s', out') \<Rightarrow>
          (case classify_sectors c ss out' of
             (ss', out'') \<Rightarrow> (s' # ss', out'')))"

text \<open>
  \<^verbatim>\<open>classifyPointCloud\<close>: the sectors with their labels, and the indices of the
  non-ground points.
\<close>

definition classifyPointCloud ::
  "Component \<Rightarrow> PointRef list list \<Rightarrow> PointRef list list \<times> nat list" where
  "classifyPointCloud c in_radial_ordered_clouds =
     classify_sectors c in_radial_ordered_clouds []"

text \<open>
  The label a point holds before the resolution (the outcome of the four-way decision),
  and these labels along the sweep of a sector.
\<close>

definition pre_label ::
  "Component \<Rightarrow> SweepState \<Rightarrow> PointRef option \<Rightarrow> PointRef \<Rightarrow> PointLabel" where
  "pre_label c st p_prev p = fst (decide_label c (measure_distance c st p_prev p) p)"

fun pre_labels ::
  "Component \<Rightarrow> SweepState \<Rightarrow> PointRef option \<Rightarrow> PointRef list \<Rightarrow> PointLabel list" where
  "pre_labels c st p_prev [] = []"
| "pre_labels c st p_prev (p # ps) =
     pre_label c st p_prev p #
     (case classify_point c st p_prev p [] of
        (st', p', out') \<Rightarrow> pre_labels c st' (Some p') ps)"

section \<open>The extractor\<close>

text \<open>
  \<^verbatim>\<open>extractObjectPoints\<close> reads the cloud at each index unchecked; the model reports an
  index outside of the cloud.
\<close>

fun extractObjectPoints :: "PointXYZ list \<Rightarrow> nat list \<Rightarrow> error + PointXYZ list" where
  "extractObjectPoints cloud [] = Inr []"
| "extractObjectPoints cloud (i # is) =
     (if i < length cloud
      then (case extractObjectPoints cloud is of
              Inl e \<Rightarrow> Inl e
            | Inr ps \<Rightarrow> Inr (cloud ! i # ps))
      else Inl IndexOutOfRange)"

section \<open>Sample inputs\<close>

text \<open>
  The configuration the node starts with when no parameter is overridden (8, 6 and 1
  degrees, 0.2 m and 0.2 m, virtual ground point in use), for a vehicle with a wheel base
  of 2.79 m.
\<close>

definition sample_component :: Component where
  "sample_component = ScanGroundFilterComponent 8 6 1 (1/5) (1/5) True (279/100)"

text \<open>
  The \<^verbatim>\<open>PointRef\<close> the binner derives for the input point \<open>(0, r, h)\<close> at position \<open>i\<close>
  of the cloud, for \<open>r > 0\<close>: radius \<open>r\<close>, azimuth 0, sector 0.
\<close>

definition sample_point :: "nat \<Rightarrow> real \<Rightarrow> real \<Rightarrow> PointRef" where
  "sample_point i r h =
     \<lparr>radius = r, theta = 0, radial_div = 0, point_state = INIT, orig_index = i,
      orig_point = \<lparr>pt_x = 0, pt_y = r, pt_z = h\<rparr>\<rparr>"

text \<open>
  Sweep states the sample configuration reaches from the start of a sector: after a ground
  point at radius 1 m, and after a ground point 1 m below the sensor plane with a
  non-ground point 0.3 m above it.
\<close>

definition after_ground :: SweepState where
  "after_ground = fst (classify_sector sample_component sector_start None [sample_point 0 1 0] [])"

definition after_non_ground :: SweepState where
  "after_non_ground =
     fst (classify_sector sample_component sector_start None
       [sample_point 0 2 (- 1), sample_point 1 2 (- (7 / 10))] [])"


text \<open>
  Sample frames, all in sector 0 of the sample configuration (points \<open>(0, r, h)\<close>), each
  with a value the binner may leave for it: three points on the ground plane at 0.1 m,
  0.2 m and 1 m; two points with a slope of 45 degrees, the farther one first in the
  input; two points of equal radius 10 m, 0.3 m apart in height, in input order and
  swapped.
\<close>

definition short_steps :: "PointRef list" where
  "short_steps = [sample_point 0 (1 / 10) 0, sample_point 1 (2 / 10) 0, sample_point 2 1 0]"

definition two_walls :: "PointXYZ list" where
  "two_walls = [\<lparr>pt_x = 0, pt_y = 2, pt_z = 2\<rparr>, \<lparr>pt_x = 0, pt_y = 1, pt_z = 1\<rparr>]"

definition two_walls_sectors :: "PointRef list list" where
  "two_walls_sectors = [sample_point 1 1 1, sample_point 0 2 2] # replicate 359 []"




text \<open>
  Points on the ground plane in sector 0, 0.1 m apart: \<open>ground_steps k n\<close> holds the
  \<open>n\<close> points with input positions \<open>k\<close> to \<open>k + n - 1\<close>, the point at position \<open>j\<close> at
  radius \<open>(j + 1) / 10\<close>. \<open>unresolved_state d\<close> is the sweep state while no point of the
  sector is resolved, \<open>d\<close> being the distance measured last.
\<close>

definition ground_steps :: "nat \<Rightarrow> nat \<Rightarrow> PointRef list" where
  "ground_steps k n = map (\<lambda>j. sample_point j (real (Suc j) / 10) 0) [k..<k + n]"

definition unresolved_state :: "real \<Rightarrow> SweepState" where
  "unresolved_state d = sector_start\<lparr>points_distance := d, prev_point_label := POINT_FOLLOW\<rparr>"

section \<open>Notions the properties are stated with\<close>

text \<open>The accumulator after the points of a list are added to it, one after the other.\<close>

definition add_points :: "PointsCentroid \<Rightarrow> PointRef list \<Rightarrow> PointsCentroid" where
  "add_points a ps = foldl (\<lambda>a p. addPoint a (radius p) (pt_z (orig_point p))) a ps"

text \<open>
  The \<^verbatim>\<open>PointRef\<close>s of a cloud whose first point has position \<open>i\<close>, in input order, and
  those of them that fall into sector \<open>k\<close>: the content of the sector before it is sorted.
\<close>

definition point_refs :: "Component \<Rightarrow> nat \<Rightarrow> PointXYZ list \<Rightarrow> PointRef list" where
  "point_refs c i pts = map (\<lambda>(j, pt). make_point_ref c j pt) (enumerate i pts)"

definition sector_points :: "Component \<Rightarrow> PointXYZ list \<Rightarrow> nat \<Rightarrow> PointRef list" where
  "sector_points c cloud k = filter (\<lambda>p. radial_div p = k) (point_refs c 0 cloud)"


section \<open>Evaluation on the sample inputs\<close>

lemma dividers_of_one_degree: "calc_radial_dividers_num (pi / 180) = Some 360"
  by (simp add: calc_radial_dividers_num_def to_size_t_def)

lemma sample_component_simps:
  "global_slope_max_angle_rad sample_component = 8 * pi / 180"
  "local_slope_max_angle_rad sample_component = 6 * pi / 180"
  "radial_divider_angle_rad sample_component = pi / 180"
  "split_points_distance_tolerance sample_component = 1/5"
  "split_height_distance sample_component = 1/5"
  "use_virtual_ground_point sample_component = True"
  "radial_dividers_num sample_component = Some 360"
  "wheel_base_m sample_component = 279/100"
  by (simp_all add: sample_component_def ScanGroundFilterComponent_def deg2rad_def
      dividers_of_one_degree)

lemma sample_point_simps:
  "radius (sample_point i r h) = r"
  "point_state (sample_point i r h) = INIT"
  "orig_index (sample_point i r h) = i"
  "orig_point (sample_point i r h) = \<lparr>pt_x = 0, pt_y = r, pt_z = h\<rparr>"
  by (simp_all add: sample_point_def)

lemma hypot_axis: "hypot 0 b = \<bar>b\<bar>" "hypot a 0 = \<bar>a\<bar>"
  by (simp_all add: hypot_def)

lemma calcDistance3d_axis:
  "calcDistance3d \<lparr>pt_x = a, pt_y = b, pt_z = h\<rparr> \<lparr>pt_x = a, pt_y = b', pt_z = h\<rparr> = \<bar>b - b'\<bar>"
  "calcDistance3d \<lparr>pt_x = a, pt_y = b, pt_z = h\<rparr> \<lparr>pt_x = a, pt_y = b, pt_z = h'\<rparr> = \<bar>h - h'\<bar>"
  by (simp_all add: calcDistance3d_def)

lemma atan2_zero_height: "0 < u \<Longrightarrow> atan2 0 u = 0"
  by (simp add: atan2_def)

lemmas step_defs =
  classify_point_def measure_distance_def decide_label_def resolve_label_def
  update_state_def is_point_close_to_prev_def global_slope_def pre_label_def
  sector_start_def init_ground_point_def calcVirtualGroundOrigin_def
  initialize_def addPoint_def getAverageHeight_def getAverageRadius_def getAverageSlope_def

lemmas eval_simps =
  step_defs Let_def sample_component_simps sample_point_simps hypot_axis calcDistance3d_axis
  atan2_zero_height

lemma atan2_pos_radius: "0 < u \<Longrightarrow> atan2 v u = arctan (v / u)"
  by (simp add: atan2_def)

lemma atan2_vertical: "0 < v \<Longrightarrow> atan2 v 0 = pi / 2"
  by (simp add: atan2_def)

lemma downward_slopes:
  "arctan (- (1 / 2)) < 0" "arctan (- (7 / 20)) < 0" "arctan (- (17 / 40)) < 0"
  by simp_all

lemma sqrt_five_bound: "2 \<le> sqrt 5"
  by (rule real_le_rsqrt) simp

lemma distance_to_origin_sample:
  "calcDistance3d \<lparr>pt_x = 0, pt_y = 2, pt_z = - 1\<rparr> \<lparr>pt_x = 0, pt_y = 0, pt_z = 0\<rparr> = sqrt 5"
  by (simp add: calcDistance3d_def)

lemma after_ground_eq:
  "after_ground =
     \<lparr>prev_gnd_radius = 1, prev_gnd_slope = 0, points_distance = 1,
      ground_cluster = \<lparr>radius_sum = 1, height_sum = 0, point_num = 1\<rparr>,
      non_ground_cluster = \<lparr>radius_sum = 0, height_sum = 0, point_num = 0\<rparr>,
      local_slope = 0, prev_point_label = GROUND,
      prev_gnd_point = \<lparr>pt_x = 0, pt_y = 1, pt_z = 0\<rparr>\<rparr>"
  using pi_ge_two pi_less_4
  by (simp add: after_ground_def eval_simps)

lemma after_non_ground_eq:
  "after_non_ground =
     \<lparr>prev_gnd_radius = 2, prev_gnd_slope = arctan (- (1 / 2)), points_distance = 3 / 10,
      ground_cluster = \<lparr>radius_sum = 2, height_sum = - 1, point_num = 1\<rparr>,
      non_ground_cluster = \<lparr>radius_sum = 2, height_sum = - (7 / 10), point_num = 1\<rparr>,
      local_slope = pi / 2, prev_point_label = NON_GROUND,
      prev_gnd_point = \<lparr>pt_x = 0, pt_y = 2, pt_z = - 1\<rparr>\<rparr>"
  using pi_ge_two pi_less_4 downward_slopes sqrt_five_bound
  by (simp add: after_non_ground_def eval_simps distance_to_origin_sample atan2_pos_radius
      atan2_vertical del: arctan_less_zero_iff)

section \<open>The sweep of a sector\<close>

lemma classify_point_out:
  "classify_point c st pp p out =
     (case classify_point c st pp p [] of (st', p', idx) \<Rightarrow> (st', p', out @ idx))"
  by (simp add: classify_point_def resolve_label_def Let_def split: prod.splits)

lemma classify_point_pushed:
  assumes "classify_point c st pp p [] = (st', p', idx)"
  shows "idx = (if point_state p' = NON_GROUND then [orig_index p'] else [])"
    and "p' = p\<lparr>point_state := point_state p'\<rparr>"
    and "prev_point_label st' = point_state p'"
  using assms
  by (auto simp: classify_point_def resolve_label_def update_state_def Let_def
      split: prod.splits if_splits)

lemma decide_label_range:
  "fst (decide_label c st p) \<in> {GROUND, NON_GROUND, POINT_FOLLOW}"
  by (simp add: decide_label_def Let_def split: prod.splits)

lemma classify_point_final:
  assumes "classify_point c st pp p out = (st', p', out')"
  shows "point_state p' =
           (if pre_label c st pp p = POINT_FOLLOW
            then (if prev_point_label st = NON_GROUND then NON_GROUND
                  else if prev_point_label st = GROUND then GROUND else POINT_FOLLOW)
            else pre_label c st pp p)"
  using assms
  by (auto simp: classify_point_def pre_label_def resolve_label_def measure_distance_def
      Let_def split: prod.splits option.splits if_splits)

lemma pre_label_range: "pre_label c st pp p \<in> {GROUND, NON_GROUND, POINT_FOLLOW}"
  using decide_label_range by (simp add: pre_label_def)

lemma classify_sector_Cons:
  assumes "classify_point c st pp p out = (st1, p1, out1)"
  shows "classify_sector c st pp (p # ps) out =
           (fst (classify_sector c st1 (Some p1) ps out1),
            p1 # fst (snd (classify_sector c st1 (Some p1) ps out1)),
            snd (snd (classify_sector c st1 (Some p1) ps out1)))"
  using assms by (simp split: prod.splits)

lemma classify_sector_out:
  "classify_sector c st pp ps out =
     (case classify_sector c st pp ps [] of (st', ps', idx) \<Rightarrow> (st', ps', out @ idx))"
proof (induction ps arbitrary: st pp out)
  case Nil
  show ?case by simp
next
  case (Cons p ps)
  obtain st1 p1 idx1 where a: "classify_point c st pp p [] = (st1, p1, idx1)"
    by (cases "classify_point c st pp p []") auto
  have b: "classify_point c st pp p out = (st1, p1, out @ idx1)"
    using classify_point_out [of c st pp p out] a by simp
  show ?case
    using a b Cons.IH [of st1 "Some p1" "out @ idx1"] Cons.IH [of st1 "Some p1" idx1]
    by (simp split: prod.splits)
qed

lemma classify_sector_length:
  "length (fst (snd (classify_sector c st pp ps out))) = length ps"
proof (induction ps arbitrary: st pp out)
  case Nil
  show ?case by simp
next
  case (Cons p ps)
  obtain st1 p1 out1 where a: "classify_point c st pp p out = (st1, p1, out1)"
    by (cases "classify_point c st pp p out") auto
  show ?case
    unfolding classify_sector_Cons [OF a]
    using Cons.IH [of st1 "Some p1" out1] by simp
qed

lemma classify_sector_pushed:
  "snd (snd (classify_sector c st pp ps [])) =
     map orig_index (filter (\<lambda>p. point_state p = NON_GROUND)
       (fst (snd (classify_sector c st pp ps []))))"
proof (induction ps arbitrary: st pp)
  case Nil
  show ?case by simp
next
  case (Cons p ps)
  obtain st1 p1 idx1 where a: "classify_point c st pp p [] = (st1, p1, idx1)"
    by (cases "classify_point c st pp p []") auto
  obtain st2 ps2 idx2 where b: "classify_sector c st1 (Some p1) ps [] = (st2, ps2, idx2)"
    by (cases "classify_sector c st1 (Some p1) ps []") auto
  have c: "classify_sector c st1 (Some p1) ps idx1 = (st2, ps2, idx1 @ idx2)"
    using classify_sector_out [of c st1 "Some p1" ps idx1] b by simp
  have d: "idx2 = map orig_index (filter (\<lambda>p. point_state p = NON_GROUND) ps2)"
    using Cons.IH [of st1 "Some p1"] b by simp
  show ?case
    using a c d classify_point_pushed(1) [OF a] by simp
qed

lemma resolved_stays_resolved:
  assumes "prev_point_label st \<in> {GROUND, NON_GROUND}"
  shows "set (map point_state (fst (snd (classify_sector c st pp ps out))))
           \<subseteq> {GROUND, NON_GROUND}"
  using assms
proof (induction ps arbitrary: st pp out)
  case Nil
  show ?case by simp
next
  case (Cons p ps)
  obtain st1 p1 out1 where a: "classify_point c st pp p out = (st1, p1, out1)"
    by (cases "classify_point c st pp p out") auto
  have f: "point_state p1 \<in> {GROUND, NON_GROUND}"
    using classify_point_final [OF a] pre_label_range [of c st pp p] Cons.prems
    by (auto split: if_splits)
  have "classify_point c st pp p [] = (st1, p1, snd (snd (classify_point c st pp p [])))"
    using a classify_point_out [of c st pp p out] by (auto split: prod.splits)
  then have g: "prev_point_label st1 = point_state p1"
    by (rule classify_point_pushed(3))
  show ?case
    unfolding classify_sector_Cons [OF a]
    using f Cons.IH [of st1 "Some p1" out1] g by simp
qed

lemma labels_after_leading_follow:
  "set (dropWhile (\<lambda>l. l = POINT_FOLLOW)
         (map point_state (fst (snd (classify_sector c st pp ps out)))))
     \<subseteq> {GROUND, NON_GROUND}"
proof (induction ps arbitrary: st pp out)
  case Nil
  show ?case by simp
next
  case (Cons p ps)
  obtain st1 p1 out1 where a: "classify_point c st pp p out = (st1, p1, out1)"
    by (cases "classify_point c st pp p out") auto
  have f: "point_state p1 \<in> {GROUND, NON_GROUND, POINT_FOLLOW}"
    using classify_point_final [OF a] pre_label_range [of c st pp p]
    by (auto split: if_splits)
  have "classify_point c st pp p [] = (st1, p1, snd (snd (classify_point c st pp p [])))"
    using a classify_point_out [of c st pp p out] by (auto split: prod.splits)
  then have g: "prev_point_label st1 = point_state p1"
    by (rule classify_point_pushed(3))
  show ?case
  proof (cases "point_state p1 = POINT_FOLLOW")
    case True
    then show ?thesis
      unfolding classify_sector_Cons [OF a]
      using Cons.IH [of st1 "Some p1" out1] by simp
  next
    case False
    then have "prev_point_label st1 \<in> {GROUND, NON_GROUND}"
      using f g by auto
    then show ?thesis
      unfolding classify_sector_Cons [OF a]
      using False f resolved_stays_resolved [of st1 c "Some p1" ps out1] by simp
  qed
qed

lemma pre_labels_Cons:
  assumes "classify_point c st pp p out = (st1, p1, out1)"
  shows "pre_labels c st pp (p # ps) = pre_label c st pp p # pre_labels c st1 (Some p1) ps"
  using assms classify_point_out [of c st pp p out] by (auto split: prod.splits)

lemma classify_point_prev_label:
  assumes "classify_point c st pp p out = (st1, p1, out1)"
  shows "prev_point_label st1 = point_state p1"
proof -
  have "classify_point c st pp p [] = (st1, p1, snd (snd (classify_point c st pp p [])))"
    using assms classify_point_out [of c st pp p out] by (auto split: prod.splits)
  then show ?thesis by (rule classify_point_pushed(3))
qed

lemma classify_point_out_eq:
  assumes "classify_point c st pp p out = (st1, p1, out1)"
  shows "out1 = out @ (if point_state p1 = NON_GROUND then [orig_index p] else [])"
  using assms
  by (auto simp: classify_point_def resolve_label_def update_state_def Let_def
      split: prod.splits if_splits)

lemma unresolved_prefix:
  assumes "prev_point_label st = INIT \<or> prev_point_label st = POINT_FOLLOW"
    and "n \<le> length ps"
    and "take n (pre_labels c st pp ps) = replicate n POINT_FOLLOW"
  shows "take n (map point_state (fst (snd (classify_sector c st pp ps out))))
           = replicate n POINT_FOLLOW \<and>
         snd (snd (classify_sector c st pp ps out))
           = out @ map orig_index (filter (\<lambda>p. point_state p = NON_GROUND)
                     (drop n (fst (snd (classify_sector c st pp ps out)))))"
  using assms
proof (induction ps arbitrary: st pp out n)
  case Nil
  then show ?case by simp
next
  case (Cons p ps)
  obtain st1 p1 out1 where a: "classify_point c st pp p out = (st1, p1, out1)"
    by (cases "classify_point c st pp p out") auto
  show ?case
  proof (cases n)
    case 0
    have "snd (snd (classify_sector c st pp (p # ps) out)) =
          out @ snd (snd (classify_sector c st pp (p # ps) []))"
      using classify_sector_out [of c st pp "p # ps" out] by (simp split: prod.splits)
    moreover have "fst (snd (classify_sector c st pp (p # ps) out)) =
          fst (snd (classify_sector c st pp (p # ps) []))"
      using classify_sector_out [of c st pp "p # ps" out] by (simp split: prod.splits)
    ultimately show ?thesis
      using 0 classify_sector_pushed [of c st pp "p # ps"] by simp
  next
    case (Suc m)
    have "take (Suc m) (pre_label c st pp p # pre_labels c st1 (Some p1) ps)
            = replicate (Suc m) POINT_FOLLOW"
      using Cons.prems(3) Suc unfolding pre_labels_Cons [OF a] by simp
    then have pl: "pre_label c st pp p = POINT_FOLLOW"
      and rest: "take m (pre_labels c st1 (Some p1) ps) = replicate m POINT_FOLLOW"
      by simp_all
    have f: "point_state p1 = POINT_FOLLOW"
      using classify_point_final [OF a] pl Cons.prems(1) by auto
    have o: "out1 = out"
      using classify_point_out_eq [OF a] f by simp
    have g: "prev_point_label st1 = INIT \<or> prev_point_label st1 = POINT_FOLLOW"
      using classify_point_prev_label [OF a] f by simp
    have m: "m \<le> length ps"
      using Cons.prems(2) Suc by simp
    show ?thesis
      unfolding classify_sector_Cons [OF a]
      using Cons.IH [OF g m rest, of out1] f o Suc by simp
  qed
qed

lemma add_points_simps:
  "add_points a [] = a"
  "add_points a (p # ps) = add_points (addPoint a (radius p) (pt_z (orig_point p))) ps"
  by (simp_all add: add_points_def)

lemma add_points_relabel:
  "add_points a (map (\<lambda>f. f\<lparr>point_state := l\<rparr>) ps) = add_points a ps"
  by (induction ps arbitrary: a) (simp_all add: add_points_simps)

lemma classify_point_no_reset:
  assumes "classify_point c st (Some q) p out = (st1, p1, out1)"
    and "pre_label c st (Some q) p \<noteq> GROUND"
  shows "ground_cluster st1 =
           (if point_state p1 = GROUND
            then addPoint (ground_cluster st) (radius p) (pt_z (orig_point p))
            else ground_cluster st)"
    and "non_ground_cluster st1 =
           (if point_state p1 = NON_GROUND
            then addPoint (non_ground_cluster st) (radius p) (pt_z (orig_point p))
            else non_ground_cluster st)"
  using assms
  by (auto simp: classify_point_def pre_label_def resolve_label_def update_state_def
      measure_distance_def Let_def split: prod.splits if_splits)

lemma classify_point_ground_reset:
  assumes "classify_point c st pp p out = (st1, p1, out1)"
    and "pre_label c st pp p = GROUND"
  shows "ground_cluster st1 = addPoint initialize (radius p) (pt_z (orig_point p))"
    and "non_ground_cluster st1 = initialize"
    and "p1 = p\<lparr>point_state := GROUND\<rparr>"
    and "out1 = out"
  using assms
  by (auto simp: classify_point_def pre_label_def resolve_label_def update_state_def
      Let_def split: prod.splits if_splits)

lemma classify_point_same_point:
  assumes "classify_point c st pp p out = (st1, p1, out1)"
  shows "p1 = p\<lparr>point_state := point_state p1\<rparr>"
  using assms
  by (auto simp: classify_point_def Let_def split: prod.splits)

lemma follow_run_clusters:
  assumes "list_all (\<lambda>l. l = POINT_FOLLOW) (pre_labels c st (Some q) fs)"
  shows "ground_cluster (fst (classify_sector c st (Some q) fs out)) =
           add_points (ground_cluster st)
             (filter (\<lambda>f. point_state f = GROUND)
               (fst (snd (classify_sector c st (Some q) fs out)))) \<and>
         non_ground_cluster (fst (classify_sector c st (Some q) fs out)) =
           add_points (non_ground_cluster st)
             (filter (\<lambda>f. point_state f = NON_GROUND)
               (fst (snd (classify_sector c st (Some q) fs out))))"
  using assms
proof (induction fs arbitrary: st q out)
  case Nil
  show ?case by (simp add: add_points_simps)
next
  case (Cons p ps)
  obtain st1 p1 out1 where a: "classify_point c st (Some q) p out = (st1, p1, out1)"
    by (cases "classify_point c st (Some q) p out") auto
  have "list_all (\<lambda>l. l = POINT_FOLLOW)
          (pre_label c st (Some q) p # pre_labels c st1 (Some p1) ps)"
    using Cons.prems unfolding pre_labels_Cons [OF a] by simp
  then have pl: "pre_label c st (Some q) p = POINT_FOLLOW"
    and rest: "list_all (\<lambda>l. l = POINT_FOLLOW) (pre_labels c st1 (Some p1) ps)"
    by simp_all
  have ng: "pre_label c st (Some q) p \<noteq> GROUND"
    using pl by simp
  have same: "radius p1 = radius p" "orig_point p1 = orig_point p"
    using classify_point_same_point [OF a]
    by (metis PointRef.select_convs(1) PointRef.surjective PointRef.update_convs(4),
        metis PointRef.select_convs(6) PointRef.surjective PointRef.update_convs(4))
  show ?case
    unfolding classify_sector_Cons [OF a]
    using Cons.IH [OF rest, of out1] classify_point_no_reset [OF a ng] same
    by (simp add: add_points_simps)
qed

lemma follow_run_ground:
  assumes "prev_point_label st = GROUND"
    and "list_all (\<lambda>l. l = POINT_FOLLOW) (pre_labels c st pp fs)"
  shows "fst (snd (classify_sector c st pp fs out)) = map (\<lambda>f. f\<lparr>point_state := GROUND\<rparr>) fs \<and>
         snd (snd (classify_sector c st pp fs out)) = out"
  using assms
proof (induction fs arbitrary: st pp out)
  case Nil
  show ?case by simp
next
  case (Cons p ps)
  obtain st1 p1 out1 where a: "classify_point c st pp p out = (st1, p1, out1)"
    by (cases "classify_point c st pp p out") auto
  have "list_all (\<lambda>l. l = POINT_FOLLOW)
          (pre_label c st pp p # pre_labels c st1 (Some p1) ps)"
    using Cons.prems(2) unfolding pre_labels_Cons [OF a] by simp
  then have pl: "pre_label c st pp p = POINT_FOLLOW"
    and rest: "list_all (\<lambda>l. l = POINT_FOLLOW) (pre_labels c st1 (Some p1) ps)"
    by simp_all
  have f: "point_state p1 = GROUND"
    using classify_point_final [OF a] pl Cons.prems(1) by simp
  have g: "prev_point_label st1 = GROUND"
    using classify_point_prev_label [OF a] f by simp
  have o: "out1 = out"
    using classify_point_out_eq [OF a] f by simp
  have p1: "p1 = p\<lparr>point_state := GROUND\<rparr>"
    using classify_point_same_point [OF a] f by simp
  show ?case
    unfolding classify_sector_Cons [OF a]
    using Cons.IH [OF g rest, of out1] o p1 by simp
qed

lemma classify_sectors_eq:
  "classify_sectors c secs out =
     (map (\<lambda>s. fst (snd (classify_sector c sector_start None s []))) secs,
      out @ concat (map (\<lambda>s. snd (snd (classify_sector c sector_start None s []))) secs))"
proof (induction secs arbitrary: out)
  case Nil
  show ?case by simp
next
  case (Cons s secs)
  obtain st1 s1 idx1 where a: "classify_sector c sector_start None s [] = (st1, s1, idx1)"
    by (cases "classify_sector c sector_start None s []") auto
  have b: "classify_sector c sector_start None s out = (st1, s1, out @ idx1)"
    using classify_sector_out [of c sector_start None s out] a by simp
  show ?case
    using a b Cons.IH [of "out @ idx1"] by simp
qed

lemma classify_sector_same_points:
  "list_all2 (\<lambda>p' p. p' = p\<lparr>point_state := point_state p'\<rparr>)
     (fst (snd (classify_sector c st pp ps out))) ps"
proof (induction ps arbitrary: st pp out)
  case Nil
  show ?case by simp
next
  case (Cons p ps)
  obtain st1 p1 out1 where a: "classify_point c st pp p out = (st1, p1, out1)"
    by (cases "classify_point c st pp p out") auto
  show ?case
    unfolding classify_sector_Cons [OF a]
    using Cons.IH [of st1 "Some p1" out1] classify_point_same_point [OF a] by simp
qed

lemma list_all2_map_eq:
  "list_all2 (\<lambda>a b. f a = g b) xs ys \<Longrightarrow> map f xs = map g ys"
  by (induction rule: list_all2_induct) auto

lemma classify_point_steep:
  "global_slope p > global_slope_max_angle_rad c \<Longrightarrow>
   point_state (fst (snd (classify_point c st p_prev p out))) = NON_GROUND \<and>
   snd (snd (classify_point c st p_prev p out)) = out @ [orig_index p]"
  by (simp add: classify_point_def decide_label_def resolve_label_def Let_def
      split: prod.splits)

lemma classify_sector_steep:
  "j < length ps \<Longrightarrow> global_slope (ps ! j) > global_slope_max_angle_rad c \<Longrightarrow>
   point_state (fst (snd (classify_sector c st pp ps out)) ! j) = NON_GROUND"
proof (induction ps arbitrary: st pp out j)
  case Nil
  then show ?case by simp
next
  case (Cons p ps)
  obtain st1 p1 out1 where a: "classify_point c st pp p out = (st1, p1, out1)"
    by (cases "classify_point c st pp p out") auto
  show ?case
  proof (cases j)
    case 0
    then show ?thesis
      unfolding classify_sector_Cons [OF a]
      using classify_point_steep [of c p st pp out] Cons.prems(2) a by simp
  next
    case (Suc m)
    then show ?thesis
      unfolding classify_sector_Cons [OF a]
      using Cons.IH [of m st1 "Some p1" out1] Cons.prems by simp
  qed
qed

section \<open>The global slope overrides every other rule\<close>

text \<open>
  C4. A point whose global slope \<open>atan2 z radius\<close> exceeds the global maximum is
  labelled \<open>NON_GROUND\<close> and its index is pushed to the non-ground indices: in one pass
  of the loop body whatever the sweep state (the label of the point before, the
  accumulators, the ground reference) and whatever the point before it, and so for every
  point of every sector of a frame.
\<close>

theorem global_slope_override:
  assumes "global_slope p > global_slope_max_angle_rad c"
  shows "point_state (fst (snd (classify_point c st p_prev p out))) = NON_GROUND \<and>
         snd (snd (classify_point c st p_prev p out)) = out @ [orig_index p] \<and>
         (\<forall>secs i j. i < length secs \<longrightarrow> j < length (secs ! i) \<longrightarrow> secs ! i ! j = p \<longrightarrow>
            point_state (fst (classifyPointCloud c secs) ! i ! j) = NON_GROUND \<and>
            orig_index p \<in> set (snd (classifyPointCloud c secs)))"
proof (intro conjI allI impI)
  show "point_state (fst (snd (classify_point c st p_prev p out))) = NON_GROUND"
    and "snd (snd (classify_point c st p_prev p out)) = out @ [orig_index p]"
    using classify_point_steep [OF assms] by simp_all
next
  fix secs :: "PointRef list list" and i j
  assume i: "i < length secs" and j: "j < length (secs ! i)" and p: "secs ! i ! j = p"
  let ?cs = "\<lambda>s. fst (snd (classify_sector c sector_start None s []))"
  have L: "fst (classifyPointCloud c secs) ! i = ?cs (secs ! i)"
    using i by (simp add: classifyPointCloud_def classify_sectors_eq)
  have lab: "point_state (?cs (secs ! i) ! j) = NON_GROUND"
    using classify_sector_steep [OF j, of c sector_start None "[]"] assms p by simp
  show "point_state (fst (classifyPointCloud c secs) ! i ! j) = NON_GROUND"
    using lab L by simp
  have len: "length (?cs (secs ! i)) = length (secs ! i)"
    by (rule classify_sector_length)
  have "?cs (secs ! i) ! j = p\<lparr>point_state := point_state (?cs (secs ! i) ! j)\<rparr>"
    using list_all2_nthD [OF classify_sector_same_points, of j c sector_start None
        "secs ! i" "[]"] j len p by simp
  then have idx: "orig_index (?cs (secs ! i) ! j) = orig_index p"
    by (metis PointRef.select_convs(5) PointRef.surjective PointRef.update_convs(4))
  have mem: "?cs (secs ! i) ! j \<in> set (filter (\<lambda>q. point_state q = NON_GROUND) (?cs (secs ! i)))"
    using lab j len by simp
  have "orig_index p \<in> set (map orig_index
          (filter (\<lambda>q. point_state q = NON_GROUND) (?cs (secs ! i))))"
    using mem idx by (metis image_eqI set_map)
  moreover have "snd (classifyPointCloud c secs) =
      concat (map (\<lambda>s. map orig_index (filter (\<lambda>q. point_state q = NON_GROUND) (?cs s))) secs)"
    by (simp add: classifyPointCloud_def classify_sectors_eq classify_sector_pushed)
  ultimately show "orig_index p \<in> set (snd (classifyPointCloud c secs))"
    using i by (auto intro!: bexI [of _ "secs ! i"])
qed

text \<open>
  The lone point at radius 1 m and height 1 m, with a global maximum of 8 degrees: its
  slope is 45 degrees, and the frame that holds only this point has it \<open>NON_GROUND\<close>.
\<close>

theorem global_slope_override_witness:
  "global_slope (sample_point 0 1 1) > global_slope_max_angle_rad sample_component \<and>
   point_state (fst (classifyPointCloud sample_component [[sample_point 0 1 1]]) ! 0 ! 0)
     = NON_GROUND \<and>
   orig_index (sample_point 0 1 1)
     \<in> set (snd (classifyPointCloud sample_component [[sample_point 0 1 1]])) \<and>
   snd (classifyPointCloud sample_component [[sample_point 0 1 1]]) = [0]"
proof -
  have h: "global_slope (sample_point 0 1 1) > global_slope_max_angle_rad sample_component"
    using pi_gt_zero
    by (simp add: global_slope_def sample_point_simps sample_component_simps atan2_def
        arctan_one)
  note t = global_slope_override [OF h, of sector_start None "[]"]
  have a: "point_state (fst (classifyPointCloud sample_component [[sample_point 0 1 1]]) ! 0 ! 0)
             = NON_GROUND \<and>
           orig_index (sample_point 0 1 1)
             \<in> set (snd (classifyPointCloud sample_component [[sample_point 0 1 1]]))"
    using t by simp
  have b: "snd (classifyPointCloud sample_component [[sample_point 0 1 1]]) = [0]"
    using t by (auto simp add: classifyPointCloud_def sample_point_simps split: prod.splits)
  show ?thesis
    using h a b by blast
qed

section \<open>Resolution of the follow label\<close>

text \<open>
  C5. A point that holds \<open>POINT_FOLLOW\<close> after the four-way decision takes the label of
  the point before it: \<open>NON_GROUND\<close> (and its index is pushed) after a non-ground
  point, \<open>GROUND\<close> (nothing pushed) after a ground point; after a point that is itself
  \<open>POINT_FOLLOW\<close>, or at the start of the sector (\<open>INIT\<close>), it keeps \<open>POINT_FOLLOW\<close>
  and nothing is pushed, so it is in neither output.
\<close>

theorem follow_resolution:
  "pre_label c st p_prev p = POINT_FOLLOW \<Longrightarrow>
   (prev_point_label st = NON_GROUND \<longrightarrow>
      point_state (fst (snd (classify_point c st p_prev p out))) = NON_GROUND \<and>
      snd (snd (classify_point c st p_prev p out)) = out @ [orig_index p]) \<and>
   (prev_point_label st = GROUND \<longrightarrow>
      point_state (fst (snd (classify_point c st p_prev p out))) = GROUND \<and>
      snd (snd (classify_point c st p_prev p out)) = out) \<and>
   (prev_point_label st = POINT_FOLLOW \<or> prev_point_label st = INIT \<longrightarrow>
      point_state (fst (snd (classify_point c st p_prev p out))) = POINT_FOLLOW \<and>
      snd (snd (classify_point c st p_prev p out)) = out)"
  by (auto simp: classify_point_def pre_label_def resolve_label_def measure_distance_def
      Let_def split: prod.splits option.splits)

text \<open>
  The three cases on the sample configuration: the first point of a sector 0.1 m from the
  origin; a point 0.1 m behind a ground point; a point 0.15 m below a non-ground point.
\<close>

theorem follow_resolution_witness:
  "pre_label sample_component sector_start None (sample_point 0 (1 / 10) 0) = POINT_FOLLOW \<and>
   prev_point_label sector_start = INIT \<and>
   point_state (fst (snd (classify_point sample_component sector_start None
      (sample_point 0 (1 / 10) 0) []))) = POINT_FOLLOW \<and>
   snd (snd (classify_point sample_component sector_start None
      (sample_point 0 (1 / 10) 0) [])) = [] \<and>
   pre_label sample_component after_ground (Some (sample_point 0 1 0))
      (sample_point 1 (11 / 10) 0) = POINT_FOLLOW \<and>
   prev_point_label after_ground = GROUND \<and>
   point_state (fst (snd (classify_point sample_component after_ground
      (Some (sample_point 0 1 0)) (sample_point 1 (11 / 10) 0) []))) = GROUND \<and>
   snd (snd (classify_point sample_component after_ground
      (Some (sample_point 0 1 0)) (sample_point 1 (11 / 10) 0) [])) = [] \<and>
   pre_label sample_component after_non_ground (Some (sample_point 1 2 (- (7 / 10))))
      (sample_point 2 2 (- (17 / 20))) = POINT_FOLLOW \<and>
   prev_point_label after_non_ground = NON_GROUND \<and>
   point_state (fst (snd (classify_point sample_component after_non_ground
      (Some (sample_point 1 2 (- (7 / 10)))) (sample_point 2 2 (- (17 / 20))) [1]))) = NON_GROUND \<and>
   snd (snd (classify_point sample_component after_non_ground
      (Some (sample_point 1 2 (- (7 / 10)))) (sample_point 2 2 (- (17 / 20))) [1])) = [1, 2]"
proof -
  have h1: "pre_label sample_component sector_start None (sample_point 0 (1 / 10) 0)
              = POINT_FOLLOW"
    using pi_ge_two pi_less_4 by (simp add: eval_simps)
  have l1: "prev_point_label sector_start = INIT"
    by (simp add: sector_start_def)
  have h2: "pre_label sample_component after_ground (Some (sample_point 0 1 0))
              (sample_point 1 (11 / 10) 0) = POINT_FOLLOW"
    using pi_ge_two pi_less_4 by (simp add: after_ground_eq eval_simps)
  have l2: "prev_point_label after_ground = GROUND"
    by (simp add: after_ground_eq)
  have h3: "pre_label sample_component after_non_ground (Some (sample_point 1 2 (- (7 / 10))))
              (sample_point 2 2 (- (17 / 20))) = POINT_FOLLOW"
    using pi_ge_two pi_less_4 downward_slopes
    by (simp add: after_non_ground_eq eval_simps atan2_pos_radius del: arctan_less_zero_iff)
  have l3: "prev_point_label after_non_ground = NON_GROUND"
    by (simp add: after_non_ground_eq)
  show ?thesis
    using follow_resolution [OF h1, of "[]"] follow_resolution [OF h2, of "[]"]
      follow_resolution [OF h3, of "[1]"] h1 h2 h3 l1 l2 l3
    by (simp add: sample_point_simps)
qed

section \<open>Accumulators along a chain of follow points\<close>

text \<open>
  C6. A point that holds \<open>POINT_FOLLOW\<close> before the resolution resets no accumulator:
  along a run of such points each accumulator only receives the points that resolve to
  its label. A point that holds \<open>GROUND\<close> before the resolution resets both and is then
  added, so after a ground point followed by follow points the ground accumulator holds
  the ground point and every follow point (they all resolve to \<open>GROUND\<close>), the
  non-ground accumulator is empty, and nothing is pushed.
\<close>

theorem follow_chain_accumulates:
  "(list_all (\<lambda>l. l = POINT_FOLLOW) (pre_labels c st (Some q) fs) \<longrightarrow>
      ground_cluster (fst (classify_sector c st (Some q) fs out)) =
        add_points (ground_cluster st)
          (filter (\<lambda>f. point_state f = GROUND)
             (fst (snd (classify_sector c st (Some q) fs out)))) \<and>
      non_ground_cluster (fst (classify_sector c st (Some q) fs out)) =
        add_points (non_ground_cluster st)
          (filter (\<lambda>f. point_state f = NON_GROUND)
             (fst (snd (classify_sector c st (Some q) fs out))))) \<and>
   (pre_labels c st p_prev (g # fs) = GROUND # replicate (length fs) POINT_FOLLOW \<longrightarrow>
      ground_cluster (fst (classify_sector c st p_prev (g # fs) out)) =
        add_points initialize (g # fs) \<and>
      non_ground_cluster (fst (classify_sector c st p_prev (g # fs) out)) = initialize \<and>
      fst (snd (classify_sector c st p_prev (g # fs) out)) =
        map (\<lambda>f. f\<lparr>point_state := GROUND\<rparr>) (g # fs) \<and>
      snd (snd (classify_sector c st p_prev (g # fs) out)) = out)"
proof (intro conjI impI)
  assume "list_all (\<lambda>l. l = POINT_FOLLOW) (pre_labels c st (Some q) fs)"
  from follow_run_clusters [OF this, of out]
  show "ground_cluster (fst (classify_sector c st (Some q) fs out)) =
        add_points (ground_cluster st)
          (filter (\<lambda>f. point_state f = GROUND)
             (fst (snd (classify_sector c st (Some q) fs out))))"
    and "non_ground_cluster (fst (classify_sector c st (Some q) fs out)) =
        add_points (non_ground_cluster st)
          (filter (\<lambda>f. point_state f = NON_GROUND)
             (fst (snd (classify_sector c st (Some q) fs out))))"
    by simp_all
next
  assume h: "pre_labels c st p_prev (g # fs) = GROUND # replicate (length fs) POINT_FOLLOW"
  obtain st1 g1 out1 where a: "classify_point c st p_prev g out = (st1, g1, out1)"
    by (cases "classify_point c st p_prev g out") auto
  have "pre_label c st p_prev g # pre_labels c st1 (Some g1) fs
          = GROUND # replicate (length fs) POINT_FOLLOW"
    using h unfolding pre_labels_Cons [OF a] .
  then have pl: "pre_label c st p_prev g = GROUND"
    and rest: "pre_labels c st1 (Some g1) fs = replicate (length fs) POINT_FOLLOW"
    by simp_all
  have all: "list_all (\<lambda>l. l = POINT_FOLLOW) (pre_labels c st1 (Some g1) fs)"
    by (simp add: rest list_all_length)
  note r = classify_point_ground_reset [OF a pl]
  have lab: "prev_point_label st1 = GROUND"
    using classify_point_prev_label [OF a] r(3) by simp
  note run = follow_run_ground [OF lab all, of out1]
  note acc = follow_run_clusters [OF all, of out1]
  have flt: "filter (\<lambda>f. point_state f = GROUND) (map (\<lambda>f. f\<lparr>point_state := GROUND\<rparr>) fs)
               = map (\<lambda>f. f\<lparr>point_state := GROUND\<rparr>) fs"
    and flt': "filter (\<lambda>f. point_state f = NON_GROUND) (map (\<lambda>f. f\<lparr>point_state := GROUND\<rparr>) fs)
               = []"
    by (induction fs) simp_all
  show "ground_cluster (fst (classify_sector c st p_prev (g # fs) out)) =
        add_points initialize (g # fs)"
    unfolding classify_sector_Cons [OF a]
    using acc run r by (simp add: flt add_points_relabel add_points_simps)
  show "non_ground_cluster (fst (classify_sector c st p_prev (g # fs) out)) = initialize"
    unfolding classify_sector_Cons [OF a]
    using acc run r by (simp add: flt' add_points_simps)
  show "fst (snd (classify_sector c st p_prev (g # fs) out)) =
        map (\<lambda>f. f\<lparr>point_state := GROUND\<rparr>) (g # fs)"
    unfolding classify_sector_Cons [OF a]
    using run r by simp
  show "snd (snd (classify_sector c st p_prev (g # fs) out)) = out"
    unfolding classify_sector_Cons [OF a]
    using run r by simp
qed

text \<open>
  A ground point at 1 m followed by points at 1.1 m and 1.2 m, all at height 0: the
  accumulator holds one point after the first and three points, with radius sum 3.3, after
  the last.
\<close>

theorem follow_chain_accumulates_witness:
  "list_all (\<lambda>l. l = POINT_FOLLOW)
     (pre_labels sample_component after_ground (Some (sample_point 0 1 0))
        [sample_point 1 (11 / 10) 0, sample_point 2 (12 / 10) 0]) \<and>
   ground_cluster after_ground = \<lparr>radius_sum = 1, height_sum = 0, point_num = 1\<rparr> \<and>
   ground_cluster (fst (classify_sector sample_component after_ground
        (Some (sample_point 0 1 0))
        [sample_point 1 (11 / 10) 0, sample_point 2 (12 / 10) 0] []))
     = \<lparr>radius_sum = 33 / 10, height_sum = 0, point_num = 3\<rparr> \<and>
   pre_labels sample_component sector_start None
        [sample_point 0 1 0, sample_point 1 (11 / 10) 0, sample_point 2 (12 / 10) 0]
     = [GROUND, POINT_FOLLOW, POINT_FOLLOW] \<and>
   ground_cluster (fst (classify_sector sample_component sector_start None
        [sample_point 0 1 0, sample_point 1 (11 / 10) 0, sample_point 2 (12 / 10) 0] []))
     = \<lparr>radius_sum = 33 / 10, height_sum = 0, point_num = 3\<rparr> \<and>
   map point_state (fst (snd (classify_sector sample_component sector_start None
        [sample_point 0 1 0, sample_point 1 (11 / 10) 0, sample_point 2 (12 / 10) 0] [])))
     = [GROUND, GROUND, GROUND]"
proof -
  let ?fs = "[sample_point 1 (11 / 10) 0, sample_point 2 (12 / 10) 0]"
  have h1: "list_all (\<lambda>l. l = POINT_FOLLOW)
              (pre_labels sample_component after_ground (Some (sample_point 0 1 0)) ?fs)"
    using pi_ge_two pi_less_4 by (simp add: after_ground_eq eval_simps)
  have l1: "map point_state (fst (snd (classify_sector sample_component after_ground
              (Some (sample_point 0 1 0)) ?fs []))) = [GROUND, GROUND]"
    using pi_ge_two pi_less_4 by (simp add: after_ground_eq eval_simps)
  have r1: "map radius (fst (snd (classify_sector sample_component after_ground
              (Some (sample_point 0 1 0)) ?fs []))) = [11 / 10, 12 / 10]"
    using pi_ge_two pi_less_4 by (simp add: after_ground_eq eval_simps)
  have z1: "map (\<lambda>p. pt_z (orig_point p)) (fst (snd (classify_sector sample_component
              after_ground (Some (sample_point 0 1 0)) ?fs []))) = [0, 0]"
    using pi_ge_two pi_less_4 by (simp add: after_ground_eq eval_simps)
  have g: "ground_cluster after_ground = \<lparr>radius_sum = 1, height_sum = 0, point_num = 1\<rparr>"
    by (simp add: after_ground_eq)
  have h2: "pre_labels sample_component sector_start None (sample_point 0 1 0 # ?fs)
              = GROUND # replicate (length ?fs) POINT_FOLLOW"
    using pi_ge_two pi_less_4 by (simp add: eval_simps)
  note t = follow_chain_accumulates [where c = sample_component and st = after_ground
      and q = "sample_point 0 1 0" and fs = ?fs and out = "[]"]
  note t' = follow_chain_accumulates [where c = sample_component and st = sector_start
      and p_prev = None and g = "sample_point 0 1 0" and fs = ?fs and out = "[]"]
  have c1: "ground_cluster (fst (classify_sector sample_component after_ground
        (Some (sample_point 0 1 0)) ?fs []))
     = \<lparr>radius_sum = 33 / 10, height_sum = 0, point_num = 3\<rparr>"
    using t h1 l1 r1 z1 g
    by (auto simp: map_eq_Cons_conv add_points_simps addPoint_def)
  have c2: "ground_cluster (fst (classify_sector sample_component sector_start None
        (sample_point 0 1 0 # ?fs) []))
     = \<lparr>radius_sum = 33 / 10, height_sum = 0, point_num = 3\<rparr>"
    using t' h2
    by (simp add: add_points_simps addPoint_def initialize_def sample_point_simps)
  have c3: "map point_state (fst (snd (classify_sector sample_component sector_start None
        (sample_point 0 1 0 # ?fs) []))) = [GROUND, GROUND, GROUND]"
    using t' h2 by simp
  show ?thesis
    using h1 g c1 h2 c2 c3 by simp
qed

section \<open>Sectors are classified independently\<close>

text \<open>
  C8. The labels a sector gets as part of a frame are the labels it gets when it is the
  only sector of a frame: every sector starts from fresh sweep variables, and the
  classifier reads nothing of the other sectors.
\<close>

theorem sector_independence:
  "i < length secs \<Longrightarrow>
   [fst (classifyPointCloud c secs) ! i] = fst (classifyPointCloud c [secs ! i])"
  by (simp add: classifyPointCloud_def classify_sectors_eq)

text \<open>A frame of two sectors, and its second sector alone.\<close>

theorem sector_independence_witness:
  "(1::nat) < length [[sample_point 0 (1 / 10) 0, sample_point 1 (2 / 10) 0],
                      [sample_point 2 1 0, sample_point 3 (11 / 10) 0]] \<and>
   [fst (classifyPointCloud sample_component
          [[sample_point 0 (1 / 10) 0, sample_point 1 (2 / 10) 0],
           [sample_point 2 1 0, sample_point 3 (11 / 10) 0]]) ! 1]
     = fst (classifyPointCloud sample_component
             [[sample_point 2 1 0, sample_point 3 (11 / 10) 0]]) \<and>
   map (map point_state) (fst (classifyPointCloud sample_component
          [[sample_point 2 1 0, sample_point 3 (11 / 10) 0]])) = [[GROUND, GROUND]]"
proof -
  have e: "map (map point_state) (fst (classifyPointCloud sample_component
          [[sample_point 2 1 0, sample_point 3 (11 / 10) 0]])) = [[GROUND, GROUND]]"
    using pi_ge_two pi_less_4 by (simp add: classifyPointCloud_def eval_simps)
  show ?thesis
    using sector_independence [of 1
        "[[sample_point 0 (1 / 10) 0, sample_point 1 (2 / 10) 0],
          [sample_point 2 1 0, sample_point 3 (11 / 10) 0]]" sample_component] e
    by simp
qed

section \<open>The unresolved run at the head of a sector\<close>

lemma ground_steps_simps:
  "ground_steps k 0 = []"
  "ground_steps k (Suc n) = sample_point k (real (Suc k) / 10) 0 # ground_steps (Suc k) n"
  by (simp_all add: ground_steps_def upt_conv_Cons del: upt_Suc)

lemma first_ground_step:
  "classify_point sample_component sector_start None (sample_point 0 (1 / 10) 0) out =
     (unresolved_state (1 / 10), sample_point 0 (1 / 10) 0\<lparr>point_state := POINT_FOLLOW\<rparr>, out)"
  "pre_label sample_component sector_start None (sample_point 0 (1 / 10) 0) = POINT_FOLLOW"
  using pi_ge_two pi_less_4 by (simp_all add: eval_simps unresolved_state_def)

lemma next_ground_step:
  assumes "orig_point q = \<lparr>pt_x = 0, pt_y = real k / 10, pt_z = 0\<rparr>"
  shows "classify_point sample_component (unresolved_state d) (Some q)
           (sample_point k (real (Suc k) / 10) 0) out =
         (unresolved_state (1 / 10),
          sample_point k (real (Suc k) / 10) 0\<lparr>point_state := POINT_FOLLOW\<rparr>, out)"
    and "pre_label sample_component (unresolved_state d) (Some q)
           (sample_point k (real (Suc k) / 10) 0) = POINT_FOLLOW"
proof -
  show "classify_point sample_component (unresolved_state d) (Some q)
           (sample_point k (real (Suc k) / 10) 0) out =
         (unresolved_state (1 / 10),
          sample_point k (real (Suc k) / 10) 0\<lparr>point_state := POINT_FOLLOW\<rparr>, out)"
    by (simp add: eval_simps unresolved_state_def assms add_divide_distrib ring_distribs)
      (intro add_pos_nonneg add_nonneg_nonneg, simp_all)
  show "pre_label sample_component (unresolved_state d) (Some q)
           (sample_point k (real (Suc k) / 10) 0) = POINT_FOLLOW"
    by (simp add: eval_simps unresolved_state_def assms add_divide_distrib ring_distribs)
      (intro add_pos_nonneg add_nonneg_nonneg, simp_all)
qed

lemma ground_steps_pre_labels:
  assumes "orig_point q = \<lparr>pt_x = 0, pt_y = real k / 10, pt_z = 0\<rparr>"
  shows "pre_labels sample_component (unresolved_state d) (Some q) (ground_steps k n)
           = replicate n POINT_FOLLOW"
  using assms
proof (induction n arbitrary: k q d)
  case 0
  show ?case by (simp add: ground_steps_simps)
next
  case (Suc n)
  let ?p = "sample_point k (real (Suc k) / 10) 0"
  note a = next_ground_step(1) [OF Suc.prems, of d "[]"]
  have o: "orig_point (?p\<lparr>point_state := POINT_FOLLOW\<rparr>)
             = \<lparr>pt_x = 0, pt_y = real (Suc k) / 10, pt_z = 0\<rparr>"
    by (simp add: sample_point_simps)
  show ?case
    unfolding ground_steps_simps pre_labels_Cons [OF a]
    using next_ground_step(2) [OF Suc.prems, of d] Suc.IH [OF o, of "1 / 10"] by simp
qed

lemma ground_steps_unresolved:
  "pre_labels sample_component sector_start None (ground_steps 0 n) = replicate n POINT_FOLLOW"
proof (cases n)
  case 0
  then show ?thesis by (simp add: ground_steps_simps)
next
  case (Suc m)
  let ?p = "sample_point 0 (1 / 10) 0"
  note a = first_ground_step(1) [of "[]"]
  have o: "orig_point (?p\<lparr>point_state := POINT_FOLLOW\<rparr>)
             = \<lparr>pt_x = 0, pt_y = real (Suc 0) / 10, pt_z = 0\<rparr>"
    by (simp add: sample_point_simps)
  have "pre_labels sample_component sector_start None (?p # ground_steps (Suc 0) m)
          = replicate (Suc m) POINT_FOLLOW"
    unfolding pre_labels_Cons [OF a]
    using first_ground_step(2) ground_steps_pre_labels [OF o, of "1 / 10" m] by simp
  then show ?thesis
    using Suc by (simp add: ground_steps_simps)
qed

text \<open>
  C10. When the first \<open>n\<close> points of a sector all hold \<open>POINT_FOLLOW\<close> before the
  resolution, all \<open>n\<close> of them keep it: the first one has no resolved label before it,
  and each next one finds the unresolved label of the one before. None of their indices
  is pushed; the indices pushed are those of non-ground points behind the run.
\<close>

theorem unresolved_leading_run:
  "n \<le> length ps \<Longrightarrow>
   take n (pre_labels c sector_start None ps) = replicate n POINT_FOLLOW \<Longrightarrow>
   take n (map point_state (fst (snd (classify_sector c sector_start None ps out))))
     = replicate n POINT_FOLLOW \<and>
   snd (snd (classify_sector c sector_start None ps out))
     = out @ map orig_index (filter (\<lambda>p. point_state p = NON_GROUND)
               (drop n (fst (snd (classify_sector c sector_start None ps out)))))"
  by (rule unresolved_prefix) (simp_all add: sector_start_def)

text \<open>
  A run of any length: \<open>n\<close> points 0.1 m apart from the origin on, all on the ground
  plane, all stay unresolved and nothing is pushed. And a run of three such points with a
  point of slope 45 degrees behind them: the three stay unresolved, the fourth is pushed.
\<close>

theorem unresolved_leading_run_witness:
  "(\<forall>n. n \<le> length (ground_steps 0 n) \<and>
     take n (pre_labels sample_component sector_start None (ground_steps 0 n))
       = replicate n POINT_FOLLOW \<and>
     map point_state (fst (snd (classify_sector sample_component sector_start None
       (ground_steps 0 n) []))) = replicate n POINT_FOLLOW \<and>
     snd (snd (classify_sector sample_component sector_start None (ground_steps 0 n) [])) = []) \<and>
   take 3 (pre_labels sample_component sector_start None
     [sample_point 0 (1 / 10) 0, sample_point 1 (2 / 10) 0,
      sample_point 2 (3 / 10) 0, sample_point 3 1 1]) = replicate 3 POINT_FOLLOW \<and>
   take 3 (map point_state (fst (snd (classify_sector sample_component sector_start None
     [sample_point 0 (1 / 10) 0, sample_point 1 (2 / 10) 0,
      sample_point 2 (3 / 10) 0, sample_point 3 1 1] [])))) =
     [POINT_FOLLOW, POINT_FOLLOW, POINT_FOLLOW] \<and>
   snd (snd (classify_sector sample_component sector_start None
     [sample_point 0 (1 / 10) 0, sample_point 1 (2 / 10) 0,
      sample_point 2 (3 / 10) 0, sample_point 3 1 1] [])) = [3]"
proof -
  let ?ps = "[sample_point 0 (1 / 10) 0, sample_point 1 (2 / 10) 0,
              sample_point 2 (3 / 10) 0, sample_point 3 1 1]"
  have run: "n \<le> length (ground_steps 0 n) \<and>
     take n (pre_labels sample_component sector_start None (ground_steps 0 n))
       = replicate n POINT_FOLLOW \<and>
     map point_state (fst (snd (classify_sector sample_component sector_start None
       (ground_steps 0 n) []))) = replicate n POINT_FOLLOW \<and>
     snd (snd (classify_sector sample_component sector_start None (ground_steps 0 n) [])) = []"
    for n
  proof -
    let ?L = "fst (snd (classify_sector sample_component sector_start None
                (ground_steps 0 n) []))"
    have l: "length (ground_steps 0 n) = n"
      by (simp add: ground_steps_def)
    have n: "n \<le> length (ground_steps 0 n)"
      using l by simp
    have h: "take n (pre_labels sample_component sector_start None (ground_steps 0 n))
               = replicate n POINT_FOLLOW"
      by (simp add: ground_steps_unresolved)
    have len: "length ?L = n"
      using classify_sector_length [of sample_component sector_start None
          "ground_steps 0 n" "[]"] l by simp
    note t = unresolved_leading_run [OF n h, of "[]"]
    have a: "map point_state ?L = replicate n POINT_FOLLOW"
      using t len by simp
    have b: "snd (snd (classify_sector sample_component sector_start None
               (ground_steps 0 n) [])) = []"
      using t len by simp
    show ?thesis
      using n h a b by blast
  qed
  have n: "(3::nat) \<le> length ?ps" by simp
  have h: "take 3 (pre_labels sample_component sector_start None ?ps)
             = replicate 3 POINT_FOLLOW"
    using pi_ge_two pi_less_4
    by (simp add: eval_simps atan2_pos_radius arctan_one numeral_3_eq_3)
  have e: "map point_state (drop 3 (fst (snd (classify_sector sample_component sector_start
             None ?ps [])))) = [NON_GROUND]"
    using pi_ge_two pi_less_4
    by (simp add: eval_simps atan2_pos_radius arctan_one numeral_3_eq_3)
  have i: "map orig_index (drop 3 (fst (snd (classify_sector sample_component sector_start
             None ?ps [])))) = [3]"
    using pi_ge_two pi_less_4
    by (simp add: eval_simps atan2_pos_radius arctan_one numeral_3_eq_3)
  have fixed: "take 3 (pre_labels sample_component sector_start None ?ps)
       = replicate 3 POINT_FOLLOW \<and>
     take 3 (map point_state (fst (snd (classify_sector sample_component sector_start None
       ?ps [])))) = [POINT_FOLLOW, POINT_FOLLOW, POINT_FOLLOW] \<and>
     snd (snd (classify_sector sample_component sector_start None ?ps [])) = [3]"
    using unresolved_leading_run [OF n h, of "[]"] n h e i
    by (auto simp: numeral_3_eq_3 map_eq_Cons_conv)
  show ?thesis
    using run fixed by blast
qed

section \<open>Angles and sector indices\<close>

lemma atan2_range: "- pi < atan2 v u \<and> atan2 v u \<le> pi"
proof -
  have b: "- (pi / 2) < arctan (v / u)" "arctan (v / u) < pi / 2"
    using arctan_lbound arctan_ubound by auto
  have neg: "u < 0 \<Longrightarrow> 0 \<le> v \<Longrightarrow> arctan (v / u) \<le> 0"
    by (simp add: divide_nonneg_neg)
  have pos: "u < 0 \<Longrightarrow> v < 0 \<Longrightarrow> 0 < arctan (v / u)"
    by (simp add: divide_neg_neg)
  show ?thesis
    using b neg pos pi_gt_zero by (auto simp: atan2_def)
qed

lemma trunc_small: "\<bar>v\<bar> < 1 \<Longrightarrow> trunc v = 0"
  by (auto simp: trunc_def floor_eq_iff ceiling_eq_iff)

lemma fmod_small: "0 < b \<Longrightarrow> \<bar>a\<bar> < b \<Longrightarrow> fmod a b = a"
proof -
  assume b: "0 < b" and a: "\<bar>a\<bar> < b"
  have "\<bar>a / b\<bar> < 1" using a b by simp
  then show ?thesis by (simp add: fmod_def trunc_small)
qed

lemma fmod_nonneg:
  assumes "0 \<le> a" and "0 < b"
  shows "0 \<le> fmod a b" and "fmod a b < b" and "fmod a b \<le> a"
proof -
  have q: "0 \<le> a / b" using assms by simp
  have f: "fmod a b = a - b * of_int \<lfloor>a / b\<rfloor>"
    using q by (simp add: fmod_def trunc_def)
  have l: "of_int \<lfloor>a / b\<rfloor> \<le> a / b" by (rule of_int_floor_le)
  have u: "a / b < of_int \<lfloor>a / b\<rfloor> + 1"
    using floor_correct [of "a / b"] by simp
  have l': "b * of_int \<lfloor>a / b\<rfloor> \<le> a"
    using mult_left_mono [OF l, of b] assms(2) by simp
  have u': "a < b * (of_int \<lfloor>a / b\<rfloor> + 1)"
    using mult_strict_left_mono [OF u, of b] assms(2) by simp
  have z: "0 \<le> b * of_int \<lfloor>a / b\<rfloor>"
    using q assms(2) by simp
  show "0 \<le> fmod a b" using f l' by simp
  show "fmod a b < b" using f u' by (simp add: algebra_simps)
  show "fmod a b \<le> a" using f z by simp
qed

lemma normalizeRadian_range:
  assumes "- pi < a" and "a \<le> pi"
  shows "0 \<le> normalizeRadian a 0 \<and> normalizeRadian a 0 < 2 * pi"
proof -
  have "fmod a (2 * pi) = a"
    using assms pi_gt_zero by (intro fmod_small) auto
  then show ?thesis
    using assms pi_gt_zero by (auto simp: normalizeRadian_def copysign_def Let_def)
qed

lemma normalizeDegree_nonneg:
  assumes "0 \<le> q"
  shows "0 \<le> normalizeDegree q 0" and "normalizeDegree q 0 < 360"
    and "normalizeDegree q 0 \<le> q"
  using fmod_nonneg [OF assms, of 360]
  by (auto simp: normalizeDegree_def Let_def)


lemma theta_range:
  "0 \<le> theta (make_point_ref c i pt) \<and> theta (make_point_ref c i pt) < 2 * pi"
  using normalizeRadian_range [of "atan2 (pt_x pt) (pt_y pt)"] atan2_range
  by (simp add: make_point_ref_def Let_def)

lemma radial_div_def2:
  "radial_div (make_point_ref c i pt) =
     nat \<lfloor>normalizeDegree (theta (make_point_ref c i pt) / radial_divider_angle_rad c) 0\<rfloor>"
  by (simp add: make_point_ref_def Let_def)

lemma radial_div_bound:
  assumes "0 < radial_divider_angle_rad c"
    and "calc_radial_dividers_num (radial_divider_angle_rad c) = Some n"
  shows "radial_div (make_point_ref c i pt) < n"
proof -
  let ?res = "radial_divider_angle_rad c"
  let ?th = "theta (make_point_ref c i pt)"
  have th: "0 \<le> ?th" "?th < 2 * pi" using theta_range by auto
  have q0: "0 \<le> ?th / ?res" using th assms(1) by simp
  have q1: "?th / ?res < 2 * pi / ?res"
    using th assms(1) by (simp add: divide_strict_right_mono)
  have n: "n = nat \<lceil>2 * pi / ?res\<rceil>" "0 \<le> \<lceil>2 * pi / ?res\<rceil>"
    using assms by (auto simp: calc_radial_dividers_num_def to_size_t_def split: if_splits)
  have "normalizeDegree (?th / ?res) 0 < 2 * pi / ?res"
    using normalizeDegree_nonneg(3) [OF q0] q1 by simp
  also have "\<dots> \<le> of_int \<lceil>2 * pi / ?res\<rceil>" by (rule le_of_int_ceiling)
  finally have fl: "\<lfloor>normalizeDegree (?th / ?res) 0\<rfloor> < \<lceil>2 * pi / ?res\<rceil>"
    by (simp add: floor_less_iff)
  have f0: "0 \<le> \<lfloor>normalizeDegree (?th / ?res) 0\<rfloor>"
    using normalizeDegree_nonneg(1) [OF q0] by simp
  have "nat \<lfloor>normalizeDegree (?th / ?res) 0\<rfloor> < nat \<lceil>2 * pi / ?res\<rceil>"
    using fl f0 by linarith
  then show ?thesis
    by (simp only: radial_div_def2 n(1))
qed

section \<open>The content of the sectors\<close>

lemma point_refs_simps:
  "point_refs c i [] = []"
  "point_refs c i (pt # pts) = make_point_ref c i pt # point_refs c (Suc i) pts"
  by (simp_all add: point_refs_def)

lemma bin_points_result:
  "bin_points c i pts out = Inr b \<Longrightarrow>
     b = map (\<lambda>k. out ! k @ filter (\<lambda>p. radial_div p = k) (point_refs c i pts))
           [0..<length out]"
proof (induction pts arbitrary: i out)
  case Nil
  then show ?case by (simp add: point_refs_simps map_nth)
next
  case (Cons pt pts)
  let ?p = "make_point_ref c i pt"
  let ?out = "out[radial_div ?p := out ! radial_div ?p @ [?p]]"
  have r: "radial_div ?p < length out" and rec: "bin_points c (Suc i) pts ?out = Inr b"
    using Cons.prems by (auto simp: Let_def split: if_splits)
  have "b = map (\<lambda>k. ?out ! k @ filter (\<lambda>p. radial_div p = k) (point_refs c (Suc i) pts))
              [0..<length ?out]"
    using Cons.IH [OF rec] .
  also have "\<dots> = map (\<lambda>k. out ! k @ filter (\<lambda>p. radial_div p = k) (point_refs c i (pt # pts)))
              [0..<length out]"
    using r by (auto simp: point_refs_simps nth_list_update)
  finally show ?case .
qed

lemma bin_points_succeeds:
  assumes "radial_divider_angle_rad c \<noteq> 0"
    and "\<And>j pt. radial_div (make_point_ref c j pt) < length out"
  shows "\<exists>b. bin_points c i pts out = Inr b"
  using assms(2)
proof (induction pts arbitrary: i out)
  case Nil
  show ?case by simp
next
  case (Cons pt pts)
  have "\<And>j pt'. radial_div (make_point_ref c j pt')
          < length (out[radial_div (make_point_ref c i pt) :=
                        out ! radial_div (make_point_ref c i pt) @ [make_point_ref c i pt]])"
    using Cons.prems by simp
  from Cons.IH [OF this, of "Suc i"] show ?case
    using assms(1) Cons.prems by (simp add: Let_def)
qed

lemma bin_points_sectors:
  assumes "bin_points c 0 cloud (replicate n []) = Inr b"
  shows "b = map (sector_points c cloud) [0..<n]"
  using bin_points_result [OF assms] by (simp add: sector_points_def)

lemma point_refs_member:
  assumes "p \<in> set (point_refs c i pts)"
  shows "i \<le> orig_index p" and "orig_index p < i + length pts"
    and "orig_point p = pts ! (orig_index p - i)"
    and "point_state p = INIT"
  using assms
  by (auto simp: point_refs_def in_set_enumerate_eq make_point_ref_def Let_def)

lemma convertPointcloud_sectors:
  assumes "convertPointcloud c cloud out"
  shows "\<exists>n. radial_dividers_num c = Some n \<and> length out = n \<and>
           (\<forall>k<n. std_sort radius_less (sector_points c cloud k) (out ! k))"
proof -
  obtain n where n: "radial_dividers_num c = Some n"
    using assms by (auto simp: convertPointcloud_def split: option.splits)
  obtain b where b: "bin_points c 0 cloud (replicate n []) = Inr b"
    and s: "list_all2 (std_sort radius_less) b out"
    using assms n by (auto simp: convertPointcloud_def split: sum.splits)
  have beq: "b = map (sector_points c cloud) [0..<n]"
    using bin_points_sectors [OF b] .
  have len: "length out = n"
    using s beq by (auto dest: list_all2_lengthD)
  have "\<forall>k<n. std_sort radius_less (sector_points c cloud k) (out ! k)"
    using s beq by (auto simp: list_all2_conv_all_nth)
  then show ?thesis using n len by blast
qed

lemma std_sort_radius:
  assumes "std_sort radius_less xs ys"
  shows "mset ys = mset xs" and "sorted_wrt (\<lambda>a b. radius a \<le> radius b) ys"
  using assms by (simp_all add: std_sort_def radius_less_def not_less)



section \<open>The sector index is wrapped, not clamped\<close>








section \<open>The divider angle is not validated\<close>

lemma get_param_single:
  "get_param_double [(''radial_divider_angle_deg'', PDouble d)] ''global_slope_max_angle_deg'' = Inr None"
  "get_param_double [(''radial_divider_angle_deg'', PDouble d)] ''local_slope_max_angle_deg'' = Inr None"
  "get_param_double [(''radial_divider_angle_deg'', PDouble d)] ''radial_divider_angle_deg'' = Inr (Some d)"
  "get_param_double [(''radial_divider_angle_deg'', PDouble d)] ''split_points_distance_tolerance'' = Inr None"
  "get_param_double [(''radial_divider_angle_deg'', PDouble d)] ''split_height_distance'' = Inr None"
  "get_param_bool [(''radial_divider_angle_deg'', PDouble d)] ''use_virtual_ground_point'' = Inr None"
  by (simp_all add: get_param_double_def get_param_bool_def)

lemma dividers_of_negative: "calc_radial_dividers_num (- (200 * pi)) = Some 0"
proof -
  have "2 * pi / - (200 * pi) = - (1 / 100)" by simp
  then have "\<lceil>2 * pi / - (200 * pi)\<rceil> = 0" by (simp add: ceiling_eq_iff)
  then show ?thesis by (simp add: calc_radial_dividers_num_def to_size_t_def)
qed

text \<open>
  C2, as the claim states it, fails. The parameter callback accepts a divider angle of 0
  and one of -36000 degrees and reports success; there is no \<open>InvalidConfig\<close>. With the
  negative angle the sector count becomes 0, and the empty frame is still processed to
  an empty output.
\<close>

theorem invalid_config_counterexample:
  "onParameter sample_component [(''radial_divider_angle_deg'', PDouble 0)] =
     Inr (sample_component\<lparr>radial_divider_angle_rad := 0, radial_dividers_num := None\<rparr>,
          \<lparr>successful = True, reason = ''success''\<rparr>) \<and>
   onParameter sample_component [(''radial_divider_angle_deg'', PDouble (- 36000))] =
     Inr (sample_component\<lparr>radial_divider_angle_rad := - (200 * pi),
                            radial_dividers_num := Some 0\<rparr>,
          \<lparr>successful = True, reason = ''success''\<rparr>) \<and>
   convertPointcloud
     (sample_component\<lparr>radial_divider_angle_rad := - (200 * pi), radial_dividers_num := Some 0\<rparr>)
     [] [] \<and>
   classifyPointCloud
     (sample_component\<lparr>radial_divider_angle_rad := - (200 * pi), radial_dividers_num := Some 0\<rparr>)
     [] = ([], []) \<and>
   extractObjectPoints [] [] = Inr []"
proof -
  have a: "deg2rad 0 = 0" "deg2rad (- 36000) = - (200 * pi)"
    by (simp_all add: deg2rad_def)
  have b: "calc_radial_dividers_num 0 = None"
    by (simp add: calc_radial_dividers_num_def)
  show ?thesis
    by (simp add: onParameter_def get_param_single a b dividers_of_negative
        convertPointcloud_def classifyPointCloud_def)
qed

text \<open>
  C2, amended. The component takes every divider angle as it comes, zero and negative
  ones too: the parameter callback stores the angle in radians with the sector count
  computed from it and reports success, and the constructor stores them the same way.
  Nothing is rejected and nothing is clamped.
\<close>

theorem divider_angle_not_validated:
  "onParameter c [(''radial_divider_angle_deg'', PDouble d)] =
     Inr (c\<lparr>radial_divider_angle_rad := deg2rad d,
             radial_dividers_num := calc_radial_dividers_num (deg2rad d)\<rparr>,
          \<lparr>successful = True, reason = ''success''\<rparr>) \<and>
   radial_divider_angle_rad (ScanGroundFilterComponent g l d t h v w) = deg2rad d \<and>
   radial_dividers_num (ScanGroundFilterComponent g l d t h v w)
     = calc_radial_dividers_num (deg2rad d)"
  by (simp add: onParameter_def get_param_single ScanGroundFilterComponent_def)

section \<open>Frames in one sector\<close>

lemma make_point_ref_on_axis:
  assumes "0 < r"
  shows "make_point_ref c i \<lparr>pt_x = 0, pt_y = r, pt_z = h\<rparr> = sample_point i r h"
proof -
  have a: "atan2 0 r = 0" using assms by (simp add: atan2_zero_height)
  have f: "fmod 0 (2 * pi) = 0" "fmod 0 360 = 0"
    by (simp_all add: fmod_def trunc_def)
  have n: "normalizeRadian 0 0 = 0" "normalizeDegree 0 0 = 0"
    using pi_gt_zero by (simp_all add: normalizeRadian_def normalizeDegree_def Let_def f)
  show ?thesis
    using assms by (simp add: make_point_ref_def Let_def a n hypot_axis sample_point_def)
qed

lemma point_refs_on_axis:
  assumes "list_all (\<lambda>pt. pt_x pt = 0 \<and> 0 < pt_y pt) pts"
  shows "point_refs c i pts =
           map (\<lambda>(j, pt). sample_point j (pt_y pt) (pt_z pt)) (enumerate i pts)"
  using assms
proof (induction pts arbitrary: i)
  case Nil
  show ?case by (simp add: point_refs_simps)
next
  case (Cons pt pts)
  have "pt = \<lparr>pt_x = 0, pt_y = pt_y pt, pt_z = pt_z pt\<rparr>" "0 < pt_y pt"
    using Cons.prems by simp_all
  then have "make_point_ref c i pt = sample_point i (pt_y pt) (pt_z pt)"
    using make_point_ref_on_axis [of "pt_y pt" c i "pt_z pt"] by simp
  then show ?case
    using Cons by (simp add: point_refs_simps)
qed

lemma sector_points_on_axis:
  assumes "list_all (\<lambda>pt. pt_x pt = 0 \<and> 0 < pt_y pt) cloud"
  shows "sector_points c cloud k = (if k = 0 then point_refs c 0 cloud else [])"
proof -
  have "radial_div p = 0" if "p \<in> set (point_refs c 0 cloud)" for p
    using that unfolding point_refs_on_axis [OF assms] by (auto simp: sample_point_def)
  then show ?thesis
    by (auto simp: sector_points_def filter_empty_conv filter_id_conv)
qed

lemma sample_frame:
  assumes "list_all (\<lambda>pt. pt_x pt = 0 \<and> 0 < pt_y pt) cloud"
    and "std_sort radius_less (point_refs sample_component 0 cloud) s"
  shows "convertPointcloud sample_component cloud (s # replicate 359 [])"
proof -
  have res: "0 < radial_divider_angle_rad sample_component"
    by (simp add: sample_component_simps)
  have calc: "calc_radial_dividers_num (radial_divider_angle_rad sample_component) = Some 360"
    by (simp add: sample_component_simps dividers_of_one_degree)
  have "\<exists>b. bin_points sample_component 0 cloud (replicate 360 []) = Inr b"
    using res radial_div_bound [OF res calc] by (intro bin_points_succeeds) auto
  then obtain b where b: "bin_points sample_component 0 cloud (replicate 360 []) = Inr b"
    by blast
  have beq: "b = map (sector_points sample_component cloud) [0..<360]"
    using bin_points_sectors [OF b] .
  have "list_all2 (std_sort radius_less) b (s # replicate 359 [])"
  proof (rule list_all2_all_nthI)
    show "length b = length (s # replicate 359 [])" by (simp add: beq)
  next
    fix k assume "k < length b"
    then have k: "k < 360" by (simp add: beq)
    show "std_sort radius_less (b ! k) ((s # replicate 359 []) ! k)"
    proof (cases k)
      case 0
      then show ?thesis
        using assms(2) by (simp add: beq sector_points_on_axis [OF assms(1)] nth_map_upt)
    next
      case (Suc m)
      then have "m < 359" using k by simp
      then show ?thesis
        using Suc k by (simp add: beq sector_points_on_axis [OF assms(1)] std_sort_def
            del: upt_Suc)
    qed
  qed
  then show ?thesis
    by (simp add: convertPointcloud_def sample_component_simps b)
qed

lemma classify_sectors_empty:
  "classify_sectors c (replicate n []) out = (replicate n [], out)"
  by (induction n) simp_all

lemma classifyPointCloud_single:
  "classifyPointCloud c (s # replicate n []) =
     (fst (snd (classify_sector c sector_start None s [])) # replicate n [],
      snd (snd (classify_sector c sector_start None s [])))"
  by (simp add: classifyPointCloud_def classify_sectors_empty split: prod.splits)


lemma two_walls_frame: "convertPointcloud sample_component two_walls two_walls_sectors"
  unfolding two_walls_sectors_def
  by (rule sample_frame)
    (simp_all add: two_walls_def point_refs_on_axis std_sort_def radius_less_def
      sample_point_simps)


lemma two_walls_labelled:
  "fst (classifyPointCloud sample_component two_walls_sectors)
     = [sample_point 1 1 1\<lparr>point_state := NON_GROUND\<rparr>,
        sample_point 0 2 2\<lparr>point_state := NON_GROUND\<rparr>] # replicate 359 []"
  using pi_ge_two pi_less_4
  by (simp add: two_walls_sectors_def classifyPointCloud_single eval_simps
      atan2_pos_radius arctan_one)








section \<open>Labels after classification\<close>

lemma leading_run_or_member:
  "set (dropWhile P xs) \<subseteq> A \<Longrightarrow> j < length xs \<Longrightarrow> xs ! j \<in> A \<or> (\<forall>k\<le>j. P (xs ! k))"
proof (induction xs arbitrary: j)
  case Nil
  then show ?case by simp
next
  case (Cons x xs)
  show ?case
  proof (cases "P x")
    case False
    then have "set (x # xs) \<subseteq> A" using Cons.prems(1) by simp
    then show ?thesis using Cons.prems(2) nth_mem by blast
  next
    case True
    then have d: "set (dropWhile P xs) \<subseteq> A" using Cons.prems(1) by simp
    show ?thesis
    proof (cases j)
      case 0
      then show ?thesis using True by simp
    next
      case (Suc m)
      then have "m < length xs" using Cons.prems(2) by simp
      from Cons.IH [OF d this] show ?thesis
        using True Suc by (auto simp: nth_Cons split: nat.splits)
    qed
  qed
qed

text \<open>
  C7, as the claim states it, fails. In the frame of two points 0.1 m and 0.2 m from the
  origin on the ground plane, both in one sector, the second point is not the first of
  its sector and still ends \<open>POINT_FOLLOW\<close>, in neither output.
\<close>

theorem first_point_only_counterexample:
  "convertPointcloud sample_component
     [\<lparr>pt_x = 0, pt_y = 1 / 10, pt_z = 0\<rparr>, \<lparr>pt_x = 0, pt_y = 2 / 10, pt_z = 0\<rparr>]
     ([sample_point 0 (1 / 10) 0, sample_point 1 (2 / 10) 0] # replicate 359 []) \<and>
   map point_state (fst (classifyPointCloud sample_component
     ([sample_point 0 (1 / 10) 0, sample_point 1 (2 / 10) 0] # replicate 359 [])) ! 0)
     = [POINT_FOLLOW, POINT_FOLLOW] \<and>
   snd (classifyPointCloud sample_component
     ([sample_point 0 (1 / 10) 0, sample_point 1 (2 / 10) 0] # replicate 359 [])) = []"
proof -
  have f: "convertPointcloud sample_component
     [\<lparr>pt_x = 0, pt_y = 1 / 10, pt_z = 0\<rparr>, \<lparr>pt_x = 0, pt_y = 2 / 10, pt_z = 0\<rparr>]
     ([sample_point 0 (1 / 10) 0, sample_point 1 (2 / 10) 0] # replicate 359 [])"
    by (rule sample_frame)
      (simp_all add: point_refs_on_axis std_sort_def radius_less_def sample_point_simps)
  show ?thesis
    using f pi_ge_two pi_less_4
    by (simp add: classifyPointCloud_single eval_simps)
qed

text \<open>
  C7, amended. After classification every point is \<open>GROUND\<close> or \<open>NON_GROUND\<close>, unless it
  and every point before it in its sector are \<open>POINT_FOLLOW\<close>: the unresolved points are
  a run at the head of the sector, and no point keeps \<open>INIT\<close>.
\<close>

theorem labels_after_classification:
  "i < length secs \<Longrightarrow> j < length (secs ! i) \<Longrightarrow>
   point_state (fst (classifyPointCloud c secs) ! i ! j) \<in> {GROUND, NON_GROUND} \<or>
   (\<forall>k\<le>j. point_state (fst (classifyPointCloud c secs) ! i ! k) = POINT_FOLLOW)"
proof -
  assume i: "i < length secs" and j: "j < length (secs ! i)"
  let ?L = "fst (snd (classify_sector c sector_start None (secs ! i) []))"
  have L: "fst (classifyPointCloud c secs) ! i = ?L"
    using i by (simp add: classifyPointCloud_def classify_sectors_eq)
  have len: "length ?L = length (secs ! i)"
    by (rule classify_sector_length)
  have "map point_state ?L ! j \<in> {GROUND, NON_GROUND} \<or>
        (\<forall>k\<le>j. map point_state ?L ! k = POINT_FOLLOW)"
    using labels_after_leading_follow [of c sector_start None "secs ! i" "[]"] j len
    by (intro leading_run_or_member) simp_all
  then show ?thesis
    using j len by (simp add: L)
qed

text \<open>
  The frame of three points on the ground plane at 0.1 m, 0.2 m and 1 m: the third is
  \<open>GROUND\<close>, the second is unresolved, and so the first is.
\<close>

theorem labels_after_classification_witness:
  "convertPointcloud sample_component
     [\<lparr>pt_x = 0, pt_y = 1 / 10, pt_z = 0\<rparr>, \<lparr>pt_x = 0, pt_y = 2 / 10, pt_z = 0\<rparr>,
      \<lparr>pt_x = 0, pt_y = 1, pt_z = 0\<rparr>]
     (short_steps # replicate 359 []) \<and>
   (0::nat) < length (short_steps # replicate 359 []) \<and>
   (1::nat) < length ((short_steps # replicate 359 []) ! 0) \<and>
   map point_state (fst (classifyPointCloud sample_component
       (short_steps # replicate 359 [])) ! 0) = [POINT_FOLLOW, POINT_FOLLOW, GROUND] \<and>
   point_state (fst (classifyPointCloud sample_component
       (short_steps # replicate 359 [])) ! 0 ! 0) = POINT_FOLLOW"
proof -
  let ?secs = "short_steps # replicate 359 []"
  have f: "convertPointcloud sample_component
     [\<lparr>pt_x = 0, pt_y = 1 / 10, pt_z = 0\<rparr>, \<lparr>pt_x = 0, pt_y = 2 / 10, pt_z = 0\<rparr>,
      \<lparr>pt_x = 0, pt_y = 1, pt_z = 0\<rparr>] ?secs"
    by (rule sample_frame)
      (simp_all add: point_refs_on_axis std_sort_def radius_less_def short_steps_def
        sample_point_simps numeral_2_eq_2)
  have a: "(0::nat) < length ?secs" by simp
  have b: "(1::nat) < length (?secs ! 0)" by (simp add: short_steps_def)
  have e: "map point_state (fst (classifyPointCloud sample_component ?secs) ! 0)
             = [POINT_FOLLOW, POINT_FOLLOW, GROUND]"
    using pi_ge_two pi_less_4
    by (simp add: classifyPointCloud_single short_steps_def eval_simps)
  then have e1: "point_state (fst (classifyPointCloud sample_component ?secs) ! 0 ! 1)
             = POINT_FOLLOW"
    by (auto simp: map_eq_Cons_conv)
  have "point_state (fst (classifyPointCloud sample_component ?secs) ! 0 ! 0) = POINT_FOLLOW"
    using labels_after_classification [OF a b, of sample_component] e1 by auto
  then show ?thesis
    using f a b e by simp
qed

section \<open>The order within a sector\<close>




section \<open>The order of the non-ground output\<close>

lemma extractObjectPoints_in_range:
  "(\<And>i. i \<in> set idx \<Longrightarrow> i < length cloud) \<Longrightarrow>
   extractObjectPoints cloud idx = Inr (map ((!) cloud) idx)"
  by (induction idx) simp_all

lemma labelled_sector_points:
  assumes "convertPointcloud c cloud secs" and "k < length secs"
    and "p' \<in> set (fst (snd (classify_sector c sector_start None (secs ! k) [])))"
  shows "orig_index p' < length cloud" and "cloud ! orig_index p' = orig_point p'"
proof -
  obtain n where n: "length secs = n"
    and srt: "\<forall>k<n. std_sort radius_less (sector_points c cloud k) (secs ! k)"
    using convertPointcloud_sectors [OF assms(1)] by blast
  have m: "mset (secs ! k) = mset (sector_points c cloud k)"
    using srt assms(2) n std_sort_radius(1) by blast
  let ?L = "fst (snd (classify_sector c sector_start None (secs ! k) []))"
  note rl = classify_sector_same_points [of c sector_start None "secs ! k" "[]"]
  obtain i where i: "i < length ?L" "?L ! i = p'"
    using assms(3) by (auto simp: in_set_conv_nth)
  have il: "i < length (secs ! k)"
    using i(1) list_all2_lengthD [OF rl] by simp
  define p where "p = secs ! k ! i"
  have p: "p \<in> set (secs ! k)"
    using il by (simp add: p_def)
  have rel: "p' = p\<lparr>point_state := point_state p'\<rparr>"
    using list_all2_nthD [OF rl i(1)] i(2) by (simp add: p_def)
  have "p \<in> set (sector_points c cloud k)"
    using p m by (metis mset_eq_setD)
  then have mem: "p \<in> set (point_refs c 0 cloud)"
    by (simp add: sector_points_def)
  have io: "orig_index p' = orig_index p" "orig_point p' = orig_point p"
    using rel
    by (metis PointRef.select_convs(5) PointRef.surjective PointRef.update_convs(4),
        metis PointRef.select_convs(6) PointRef.surjective PointRef.update_convs(4))
  show "orig_index p' < length cloud"
    using point_refs_member(2) [OF mem] io by simp
  show "cloud ! orig_index p' = orig_point p'"
    using point_refs_member(3) [OF mem] io by simp
qed

lemma labelled_sector_sorted:
  assumes "sorted_wrt (\<lambda>a b. radius a \<le> radius b) ps"
  shows "sorted_wrt (\<lambda>a b. radius a \<le> radius b) (fst (snd (classify_sector c st pp ps out)))"
proof -
  let ?L = "fst (snd (classify_sector c st pp ps out))"
  have "list_all2 (\<lambda>p' p. radius p' = radius p) ?L ps"
    using classify_sector_same_points [of c st pp ps out]
    by (rule list_all2_mono)
      (metis PointRef.select_convs(1) PointRef.surjective PointRef.update_convs(4))
  then have "map radius ?L = map radius ps"
    by (rule list_all2_map_eq)
  moreover have "sorted (map radius ps)"
    using assms by (simp add: sorted_wrt_map)
  ultimately have "sorted (map radius ?L)" by simp
  then show ?thesis by (simp add: sorted_wrt_map)
qed

text \<open>
  C9. For every frame the binner has put into sectors, the indices the classifier
  collects are the original indices of the non-ground points sector by sector, in the
  order of the sectors and, within a sector, in the order of the sweep, which is
  non-decreasing radius; the extractor copies the points at these indices in this order,
  and reads no index outside the cloud.
\<close>

theorem non_ground_output_order:
  assumes "convertPointcloud c cloud secs"
  shows "snd (classifyPointCloud c secs) =
           concat (map (\<lambda>s. map orig_index (filter (\<lambda>p. point_state p = NON_GROUND) s))
             (fst (classifyPointCloud c secs))) \<and>
         extractObjectPoints cloud (snd (classifyPointCloud c secs)) =
           Inr (concat (map (\<lambda>s. map orig_point (filter (\<lambda>p. point_state p = NON_GROUND) s))
             (fst (classifyPointCloud c secs)))) \<and>
         list_all (sorted_wrt (\<lambda>a b. radius a \<le> radius b)) (fst (classifyPointCloud c secs)) \<and>
         map (map orig_index) (fst (classifyPointCloud c secs)) = map (map orig_index) secs"
proof -
  let ?cs = "\<lambda>s. fst (snd (classify_sector c sector_start None s []))"
  let ?ng = "\<lambda>p. point_state p = NON_GROUND"
  have L: "fst (classifyPointCloud c secs) = map ?cs secs"
    by (simp add: classifyPointCloud_def classify_sectors_eq)
  have I: "snd (classifyPointCloud c secs) =
             concat (map (\<lambda>s. map orig_index (filter ?ng (?cs s))) secs)"
    by (simp add: classifyPointCloud_def classify_sectors_eq classify_sector_pushed)
  have first: "snd (classifyPointCloud c secs) =
           concat (map (\<lambda>s. map orig_index (filter ?ng s)) (fst (classifyPointCloud c secs)))"
    by (simp add: L I comp_def)
  have pts: "orig_index p' < length cloud \<and> cloud ! orig_index p' = orig_point p'"
    if sm: "s \<in> set secs" and pm: "p' \<in> set (?cs s)" for s p'
  proof -
    obtain k where "k < length secs" "secs ! k = s"
      using sm by (auto simp: in_set_conv_nth)
    then show ?thesis
      using labelled_sector_points [OF assms, of k p'] pm by simp
  qed
  have rng: "i < length cloud" if "i \<in> set (snd (classifyPointCloud c secs))" for i
    using that pts unfolding I by auto
  have "map ((!) cloud) (snd (classifyPointCloud c secs)) =
          concat (map (\<lambda>s. map orig_point (filter ?ng (?cs s))) secs)"
    unfolding I using pts by (auto simp: map_concat comp_def intro!: arg_cong [of _ _ concat])
  then have second: "extractObjectPoints cloud (snd (classifyPointCloud c secs)) =
           Inr (concat (map (\<lambda>s. map orig_point (filter ?ng s)) (fst (classifyPointCloud c secs))))"
    using extractObjectPoints_in_range [of "snd (classifyPointCloud c secs)" cloud] rng
    by (simp add: L comp_def)
  obtain n where n: "length secs = n"
    and srt: "\<forall>k<n. std_sort radius_less (sector_points c cloud k) (secs ! k)"
    using convertPointcloud_sectors [OF assms] by blast
  have "sorted_wrt (\<lambda>a b. radius a \<le> radius b) s" if "s \<in> set secs" for s
    using that srt n std_sort_radius(2) by (metis in_set_conv_nth)
  then have third: "list_all (sorted_wrt (\<lambda>a b. radius a \<le> radius b))
                      (fst (classifyPointCloud c secs))"
    by (simp add: L list_all_iff labelled_sector_sorted)
  have "map orig_index (?cs s) = map orig_index s" for s
  proof -
    have "list_all2 (\<lambda>p' p. orig_index p' = orig_index p) (?cs s) s"
      using classify_sector_same_points [of c sector_start None s "[]"]
      by (rule list_all2_mono)
        (metis PointRef.select_convs(5) PointRef.surjective PointRef.update_convs(4))
    then show ?thesis
      by (rule list_all2_map_eq)
  qed
  then have fourth: "map (map orig_index) (fst (classifyPointCloud c secs))
                       = map (map orig_index) secs"
    by (simp add: L)
  show ?thesis
    using first second third fourth by simp
qed

text \<open>
  The frame of two non-ground points, the farther one first in the input: the output has
  the nearer one first, which is not the input order.
\<close>

theorem non_ground_output_order_witness:
  "convertPointcloud sample_component two_walls two_walls_sectors \<and>
   snd (classifyPointCloud sample_component two_walls_sectors) = [1, 0] \<and>
   extractObjectPoints two_walls (snd (classifyPointCloud sample_component two_walls_sectors))
     = Inr [\<lparr>pt_x = 0, pt_y = 1, pt_z = 1\<rparr>, \<lparr>pt_x = 0, pt_y = 2, pt_z = 2\<rparr>]"
proof -
  note t = non_ground_output_order [OF two_walls_frame]
  have "snd (classifyPointCloud sample_component two_walls_sectors) =
           concat (map (\<lambda>s. map orig_index (filter (\<lambda>p. point_state p = NON_GROUND) s))
             (fst (classifyPointCloud sample_component two_walls_sectors)))"
    using t by blast
  also have "\<dots> = [1, 0]"
    by (simp add: two_walls_labelled sample_point_simps)
  finally have a: "snd (classifyPointCloud sample_component two_walls_sectors) = [1, 0]" .
  have "extractObjectPoints two_walls
             (snd (classifyPointCloud sample_component two_walls_sectors))
     = Inr (concat (map (\<lambda>s. map orig_point (filter (\<lambda>p. point_state p = NON_GROUND) s))
             (fst (classifyPointCloud sample_component two_walls_sectors))))"
    using t by blast
  also have "\<dots> = Inr [\<lparr>pt_x = 0, pt_y = 1, pt_z = 1\<rparr>, \<lparr>pt_x = 0, pt_y = 2, pt_z = 2\<rparr>]"
    by (simp add: two_walls_labelled sample_point_simps)
  finally have b: "extractObjectPoints two_walls
             (snd (classifyPointCloud sample_component two_walls_sectors))
     = Inr [\<lparr>pt_x = 0, pt_y = 1, pt_z = 1\<rparr>, \<lparr>pt_x = 0, pt_y = 2, pt_z = 2\<rparr>]" .
  show ?thesis
    using two_walls_frame a b by blast
qed

end
